theory Spec2Isabelle
  imports Complex_Main
begin

section \<open>Conventions of the embedding\<close>

text \<open>
  The program is \<^verbatim>\<open>src/gdal2mbtiles.py\<close>. Python integers are \<^typ>\<open>int\<close>; zoom levels,
  which the program only takes from \<^verbatim>\<open>range(...)\<close> or from the parsed \<^verbatim>\<open>-z\<close> option and
  uses as exponents of two, are \<^typ>\<open>nat\<close>. The conversion \<^verbatim>\<open>int(x)\<close> of a float truncates
  towards zero.
\<close>

definition py_int :: "real \<Rightarrow> int" where
  "py_int x = (if 0 \<le> x then \<lfloor>x\<rfloor> else \<lceil>x\<rceil>)"

text \<open>
  A Python float is an IEEE 754 double. Its value is a real number, and an arithmetic
  operation on floats gives the double nearest to the exact result, a tie going to the
  even significand: \<open>double x\<close> is that double, for a significand of 53 bits. The range of
  the exponent is not bounded here: overflow and underflow are not modelled.

  The tile arithmetic of \<^verbatim>\<open>GlobalMercator\<close> is written with this rounding after each
  operation, since there the rounding decides to which tile the corner of a tile is
  mapped back. Multiplications and divisions by a power of two (\<^verbatim>\<open>2 * math.pi\<close>, the
  divisions by \<^verbatim>\<open>2.0\<close>, by the tile size 256 and by \<^verbatim>\<open>2 ** zoom\<close>) only change the exponent
  of a double and are exact; they are written without rounding. In the rest of the
  program the floats are exact reals.
\<close>

definition round_half_even :: "real \<Rightarrow> int" where
  "round_half_even y =
     (let f = \<lfloor>y\<rfloor>; r = y - of_int f
      in if r < 1 / 2 then f else if 1 / 2 < r then f + 1 else if even f then f else f + 1)"

definition double :: "real \<Rightarrow> real" where
  "double x =
     (if x = 0 then 0
      else (let e = \<lfloor>log 2 \<bar>x\<bar>\<rfloor> - 52
            in sgn x * of_int (round_half_even (\<bar>x\<bar> / 2 powr of_int e)) * 2 powr of_int e))"

section \<open>GlobalMercator\<close>

text \<open>
  \<^verbatim>\<open>MAXZOOMLEVEL = 32\<close>, and the fields set by \<^verbatim>\<open>GlobalMercator.__init__(tileSize=256)\<close>:
  \<^verbatim>\<open>math.pi\<close> is the double nearest to \<open>\<pi>\<close>, and \<^verbatim>\<open>2 * math.pi * 6378137\<close> is rounded once, in
  the multiplication by the radius.
\<close>

definition MAXZOOMLEVEL :: nat where
  "MAXZOOMLEVEL = 32"

definition tileSize :: int where
  "tileSize = 256"

definition initialResolution :: real where
  "initialResolution = double (2 * double pi * 6378137) / real_of_int tileSize"

definition originShift :: real where
  "originShift = double (2 * double pi * 6378137) / 2"

definition Resolution :: "nat \<Rightarrow> real" where
  "Resolution zoom = initialResolution / 2 ^ zoom"

definition PixelsToMeters :: "real \<Rightarrow> real \<Rightarrow> nat \<Rightarrow> real \<times> real" where
  "PixelsToMeters px py zoom =
     (let res = Resolution zoom;
          mx = double (double (px * res) - originShift);
          my = double (double (py * res) - originShift)
      in (mx, my))"

definition MetersToPixels :: "real \<Rightarrow> real \<Rightarrow> nat \<Rightarrow> real \<times> real" where
  "MetersToPixels mx my zoom =
     (let res = Resolution zoom;
          px = double (double (mx + originShift) / res);
          py = double (double (my + originShift) / res)
      in (px, py))"

definition PixelsToTile :: "real \<Rightarrow> real \<Rightarrow> int \<times> int" where
  "PixelsToTile px py =
     (let tx = \<lceil>px / real_of_int tileSize\<rceil> - 1;
          ty = \<lceil>py / real_of_int tileSize\<rceil> - 1
      in (tx, ty))"

definition MetersToTile :: "real \<Rightarrow> real \<Rightarrow> nat \<Rightarrow> int \<times> int" where
  "MetersToTile mx my zoom = (case MetersToPixels mx my zoom of (px, py) \<Rightarrow> PixelsToTile px py)"

definition TileBounds :: "int \<Rightarrow> int \<Rightarrow> nat \<Rightarrow> real \<times> real \<times> real \<times> real" where
  "TileBounds tx ty zoom =
     (case PixelsToMeters (real_of_int (tx * tileSize)) (real_of_int (ty * tileSize)) zoom of
        (minx, miny) \<Rightarrow>
     (case PixelsToMeters (real_of_int ((tx + 1) * tileSize)) (real_of_int ((ty + 1) * tileSize)) zoom of
        (maxx, maxy) \<Rightarrow> (minx, miny, maxx, maxy)))"

text \<open>
  \<^verbatim>\<open>ZoomForPixelSize\<close>: the loop \<^verbatim>\<open>for i in range(MAXZOOMLEVEL)\<close> returns from inside at
  the first \<^verbatim>\<open>i\<close> with \<^verbatim>\<open>pixelSize > Resolution(i)\<close>. When no \<^verbatim>\<open>i\<close> qualifies the loop
  runs out and the Python function ends without a \<^verbatim>\<open>return\<close>: its value is \<^verbatim>\<open>None\<close>.
\<close>

fun ZoomForPixelSize_loop :: "real \<Rightarrow> nat list \<Rightarrow> nat option" where
  "ZoomForPixelSize_loop pixelSize [] = None"
| "ZoomForPixelSize_loop pixelSize (i # rest) =
     (if pixelSize > Resolution i
      then (if i \<noteq> 0 then Some (i - 1) else Some 0)
      else ZoomForPixelSize_loop pixelSize rest)"

definition ZoomForPixelSize :: "real \<Rightarrow> nat option" where
  "ZoomForPixelSize pixelSize = ZoomForPixelSize_loop pixelSize [0..<MAXZOOMLEVEL]"

section \<open>Quadrant of a child tile in the overview canvas\<close>

text \<open>\<^verbatim>\<open>self.tilesize = 256\<close> of \<^verbatim>\<open>GDAL2Mbtiles.__init__\<close>.\<close>

definition tilesize :: int where
  "tilesize = 256"

text \<open>
  The offsets \<^verbatim>\<open>tileposy\<close> and \<^verbatim>\<open>tileposx\<close> computed in \<^verbatim>\<open>generate_overview_tiles\<close> for the
  child \<^verbatim>\<open>(x, y)\<close> of the parent \<^verbatim>\<open>(tx, ty)\<close>. Python's \<^verbatim>\<open>if tx:\<close> tests \<^verbatim>\<open>tx != 0\<close>; the
  \<^verbatim>\<open>%\<close> of Python and \<open>mod\<close> on \<^typ>\<open>int\<close> agree, and both divisors are guarded against zero.
\<close>

definition tileposy :: "int \<Rightarrow> int \<Rightarrow> int" where
  "tileposy ty y =
     (if (ty = 0 \<and> y = 1) \<or> (ty \<noteq> 0 \<and> y mod (2 * ty) \<noteq> 0) then 0 else tilesize)"

definition tileposx :: "int \<Rightarrow> int \<Rightarrow> int" where
  "tileposx tx x =
     (if tx \<noteq> 0 then x mod (2 * tx) * tilesize
      else if tx = 0 \<and> x = 1 then tilesize
      else 0)"

text \<open>The simpler rule, as the specification words it: top half when \<open>cy - 2ty = 1\<close>, same for X.\<close>

definition tileposy_simple :: "int \<Rightarrow> int \<Rightarrow> int" where
  "tileposy_simple ty cy = (if cy - 2 * ty = 1 then 0 else 256)"

definition tileposx_simple :: "int \<Rightarrow> int \<Rightarrow> int" where
  "tileposx_simple tx cx = (if cx - 2 * tx = 1 then 256 else 0)"

section \<open>GlobalGeodetic\<close>

definition Geodetic_Resolution :: "nat \<Rightarrow> real" where
  "Geodetic_Resolution zoom = 180 / real_of_int tileSize / 2 ^ zoom"

fun Geodetic_ZoomForPixelSize_loop :: "real \<Rightarrow> nat list \<Rightarrow> nat option" where
  "Geodetic_ZoomForPixelSize_loop pixelSize [] = None"
| "Geodetic_ZoomForPixelSize_loop pixelSize (i # rest) =
     (if pixelSize > Geodetic_Resolution i
      then (if i \<noteq> 0 then Some (i - 1) else Some 0)
      else Geodetic_ZoomForPixelSize_loop pixelSize rest)"

definition Geodetic_ZoomForPixelSize :: "real \<Rightarrow> nat option" where
  "Geodetic_ZoomForPixelSize pixelSize = Geodetic_ZoomForPixelSize_loop pixelSize [0..<MAXZOOMLEVEL]"

definition Geodetic_TileBounds :: "int \<Rightarrow> int \<Rightarrow> nat \<Rightarrow> real \<times> real \<times> real \<times> real" where
  "Geodetic_TileBounds tx ty zoom =
     (let res = 180 / real_of_int tileSize / 2 ^ zoom
      in (real_of_int (tx * tileSize) * res - 180,
          real_of_int (ty * tileSize) * res - 90,
          real_of_int ((tx + 1) * tileSize) * res - 180,
          real_of_int ((ty + 1) * tileSize) * res - 90))"

section \<open>Errors, datasets and the query-to-tile mapper\<close>

text \<open>The Python exceptions that the modelled code can raise.\<close>

datatype error =
    ZeroDivisionError | TypeError | IndexError | OperationalError | IntegrityError
  | NotADirectoryError

text \<open>
  What \<^verbatim>\<open>geo_query\<close> reads of a GDAL dataset: its size and the six coefficients of
  \<^verbatim>\<open>GetGeoTransform()\<close>.
\<close>

type_synonym geotransform = "real \<times> real \<times> real \<times> real \<times> real \<times> real"

record dataset =
  RasterXSize :: int
  RasterYSize :: int
  GetGeoTransform :: geotransform

type_synonym window = "int \<times> int \<times> int \<times> int"

text \<open>
  \<^verbatim>\<open>geo_query\<close> clamps the read window to the raster with the same two \<^verbatim>\<open>if\<close> blocks,
  written once for x and once for y. \<open>clamp_low\<close> is the block \<^verbatim>\<open>if rx < 0: ...\<close> (with the
  preceding \<^verbatim>\<open>wx = 0\<close>), \<open>clamp_high\<close> the block \<^verbatim>\<open>if rx + rxsize > ds.RasterXSize: ...\<close>.
  A float division by zero raises \<^verbatim>\<open>ZeroDivisionError\<close>.
\<close>

definition clamp_low :: "int \<Rightarrow> int \<Rightarrow> int \<Rightarrow> error + (int \<times> int \<times> int \<times> int)" where
  "clamp_low rx rxsize wxsize =
     (let wx = 0 in
      if rx < 0 then
        (let rxshift = \<bar>rx\<bar> in
         if rxsize = 0 then Inl ZeroDivisionError
         else
           (let wx = py_int (real_of_int wxsize * (real_of_int rxshift / real_of_int rxsize));
                wxsize = wxsize - wx;
                rxsize = rxsize - py_int (real_of_int rxsize * (real_of_int rxshift / real_of_int rxsize));
                rx = 0
            in Inr (rx, rxsize, wx, wxsize)))
      else Inr (rx, rxsize, wx, wxsize))"

definition clamp_high :: "int \<Rightarrow> int \<Rightarrow> int \<Rightarrow> int \<Rightarrow> error + (int \<times> int)" where
  "clamp_high rx rxsize wxsize RasterSize =
     (if rx + rxsize > RasterSize then
        (if rxsize = 0 then Inl ZeroDivisionError
         else
           (let wxsize = py_int (real_of_int wxsize * (real_of_int (RasterSize - rx) / real_of_int rxsize));
                rxsize = RasterSize - rx
            in Inr (rxsize, wxsize)))
      else Inr (rxsize, wxsize))"

definition clamp_window :: "int \<Rightarrow> int \<Rightarrow> int \<Rightarrow> int \<Rightarrow> error + (int \<times> int \<times> int \<times> int)" where
  "clamp_window rx rxsize wxsize RasterSize =
     (case clamp_low rx rxsize wxsize of
        Inl e \<Rightarrow> Inl e
      | Inr (rx, rxsize, wx, wxsize) \<Rightarrow>
          (case clamp_high rx rxsize wxsize RasterSize of
             Inl e \<Rightarrow> Inl e
           | Inr (rxsize, wxsize) \<Rightarrow> Inr (rx, rxsize, wx, wxsize)))"

text \<open>
  \<^verbatim>\<open>geo_query(ds, ulx, uly, lrx, lry, querysize=0)\<close>; the result is the pair
  \<^verbatim>\<open>(rx, ry, rxsize, rysize), (wx, wy, wxsize, wysize)\<close>.
\<close>

definition geo_query :: "dataset \<Rightarrow> real \<Rightarrow> real \<Rightarrow> real \<Rightarrow> real \<Rightarrow> int \<Rightarrow> error + (window \<times> window)" where
  "geo_query ds ulx uly lrx lry querysize =
     (case GetGeoTransform ds of (g0, g1, g2, g3, g4, g5) \<Rightarrow>
        if g1 = 0 \<or> g5 = 0 then Inl ZeroDivisionError
        else
          (let rx = py_int ((ulx - g0) / g1 + 0.001);
               ry = py_int ((uly - g3) / g5 + 0.001);
               rxsize = py_int ((lrx - ulx) / g1 + 0.5);
               rysize = py_int ((lry - uly) / g5 + 0.5);
               wxsize = (if querysize = 0 then rxsize else querysize);
               wysize = (if querysize = 0 then rysize else querysize)
           in case clamp_window rx rxsize wxsize (RasterXSize ds) of
                Inl e \<Rightarrow> Inl e
              | Inr (rx, rxsize, wx, wxsize) \<Rightarrow>
                  (case clamp_window ry rysize wysize (RasterYSize ds) of
                     Inl e \<Rightarrow> Inl e
                   | Inr (ry, rysize, wy, wysize) \<Rightarrow>
                       Inr ((rx, ry, rxsize, rysize), (wx, wy, wxsize, wysize)))))"

section \<open>Images, files and the archive\<close>

text \<open>
  The calls into GDAL, PIL and numpy are not interpreted: an image is the term of the
  calls that produced it, and every such call is taken to succeed, except the save of an
  image to a file path.
  \<^item> \<open>ReadRaster (rx, ry, rxsize, rysize) (wxsize, wysize)\<close>: the data and alpha bands read
    from the input by \<^verbatim>\<open>ReadRaster(rx, ry, rxsize, rysize, wxsize, wysize)\<close>;
  \<^item> \<open>MEM_Create size bands paints\<close>: the in-memory dataset of \<^verbatim>\<open>mem_drv.Create\<close>, with the
    list of the \<^verbatim>\<open>WriteRaster\<close>/\<^verbatim>\<open>WriteArray\<close> calls made on it, each an x offset, a
    y offset and the data written;
  \<^item> \<open>Resampled r q\<close>: the tile dataset after \<^verbatim>\<open>RegenerateOverview\<close> or \<^verbatim>\<open>ReprojectImage\<close>
    scaled the query dataset \<open>q\<close> into it with resampling \<open>r\<close>;
  \<^item> \<open>Image_save driver d\<close>: the bytes of \<^verbatim>\<open>img.save(binary, format=driver)\<close>;
    \<open>Image_open b\<close>: the pixels of \<^verbatim>\<open>Image.open(io.BytesIO(b))\<close>;
  \<^item> \<open>Image_resize\<close> and \<open>Image_composite\<close>: the two PIL calls of the antialias branch.
\<close>

datatype image =
    ReadRaster window "int \<times> int"
  | MEM_Create int int "(int \<times> int \<times> image) list"
  | Resampled string image
  | Image_save string image
  | Image_open image
  | Image_resize image
  | Image_composite image image image

text \<open>
  \<open>TileFile output tz tx ty_final tileext\<close> stands for the path
  \<^verbatim>\<open>os.path.join(output, str(tz), str(tx), "%s.%s" % (ty_final, tileext))\<close>.
\<close>

datatype path = TileFile string nat int int string

text \<open>Values bound to the parameters of the metadata \<^verbatim>\<open>INSERT\<close>.\<close>

datatype pyval = PyStr string | PyInt int | PyNone

text \<open>The statements that change the archive, for the history of a run.\<close>

datatype statement =
    CreateTables
  | InsertMetadata string
  | InsertTile nat int int
  | CreateIndex string

text \<open>
  The world outside the process: the SQLite archive and the files. \<open>created\<close> says that
  the tables of \<^verbatim>\<open>mbtiles_setup\<close> exist; \<open>tiles\<close> and \<open>metadata\<close> are the rows of the two
  tables in insertion order; \<open>indexes\<close> the names of the indexes created; \<open>journal\<close> is
  the history of the statements executed and committed, in order (a ghost field: the
  program never reads it); \<open>files\<close> gives the image stored at a tile path, if the file
  exists; \<open>directories\<close> holds the directories \<^verbatim>\<open>os.path.join(output, str(tz), str(tx))\<close>
  that exist, each as the triple \<open>(output, tz, tx)\<close>; \<open>output_dir\<close> the names of the viewer
  files present in the output directory, which is taken to be writable.
  Every tile \<^verbatim>\<open>INSERT\<close> is taken as committed: the model is of a run without \<^verbatim>\<open>--verbose\<close>,
  where each tile is followed by \<^verbatim>\<open>con.commit()\<close>. The metadata rows are committed by
  \<^verbatim>\<open>worker_metadata\<close>.

  The tile paths lie under \<^verbatim>\<open>self.output\<close>, which is the SQLite file that every worker
  opens with \<^verbatim>\<open>sqlite3.connect(self.output)\<close> before it computes a tile, and the program
  creates no directory but the output directory of the viewer files. In a run, therefore,
  \<open>directories\<close> and \<open>files\<close> are empty; a new archive has no directory.
\<close>

record world =
  created :: bool
  tiles :: "(nat \<times> int \<times> int \<times> image) list"
  metadata :: "(string \<times> pyval) list"
  indexes :: "string list"
  journal :: "statement list"
  files :: "path \<Rightarrow> image option"
  directories :: "(string \<times> nat \<times> int) set"
  output_dir :: "string set"

definition new_archive :: "(path \<Rightarrow> image option) \<Rightarrow> string set \<Rightarrow> world" where
  "new_archive fs dir =
     \<lparr>created = False, tiles = [], metadata = [], indexes = [], journal = [],
      files = fs, directories = {}, output_dir = dir\<rparr>"

definition tile_key :: "nat \<times> int \<times> int \<times> image \<Rightarrow> nat \<times> int \<times> int" where
  "tile_key row = (case row of (z, x, y, d) \<Rightarrow> (z, x, y))"

text \<open>
  SQLite, as far as the program relies on it: a statement on a missing table, or creating
  a table or an index that exists, raises \<^verbatim>\<open>OperationalError\<close>; a unique index is refused
  on rows that are not unique, and once it exists refuses a duplicate row, with
  \<^verbatim>\<open>IntegrityError\<close>; \<^verbatim>\<open>fetchone()\<close> gives the first matching row or \<^verbatim>\<open>None\<close>.
\<close>

definition select_tile_data :: "world \<Rightarrow> nat \<Rightarrow> int \<Rightarrow> int \<Rightarrow> error + image option" where
  "select_tile_data w z x y =
     (if \<not> created w then Inl OperationalError
      else Inr (map_option (\<lambda>row. snd (snd (snd row)))
                  (List.find (\<lambda>row. tile_key row = (z, x, y)) (tiles w))))"

definition insert_tile :: "nat \<Rightarrow> int \<Rightarrow> int \<Rightarrow> image \<Rightarrow> world \<Rightarrow> error + world" where
  "insert_tile z x y d w =
     (if \<not> created w then Inl OperationalError
      else if ''tile_index'' \<in> set (indexes w) \<and> (z, x, y) \<in> set (map tile_key (tiles w))
      then Inl IntegrityError
      else Inr (w\<lparr>tiles := tiles w @ [(z, x, y, d)], journal := journal w @ [InsertTile z x y]\<rparr>))"

definition insert_metadata :: "string \<Rightarrow> pyval \<Rightarrow> world \<Rightarrow> error + world" where
  "insert_metadata n v w =
     (if \<not> created w then Inl OperationalError
      else if ''name'' \<in> set (indexes w) \<and> n \<in> set (map fst (metadata w))
      then Inl IntegrityError
      else Inr (w\<lparr>metadata := metadata w @ [(n, v)], journal := journal w @ [InsertMetadata n]\<rparr>))"

text \<open>\<^verbatim>\<open>mbtiles_setup\<close>: the \<^verbatim>\<open>CREATE TABLE\<close> statements (the unused grid tables are left out).\<close>

definition mbtiles_setup :: "world \<Rightarrow> error + world" where
  "mbtiles_setup w =
     (if created w then Inl OperationalError
      else Inr (w\<lparr>created := True, tiles := [], metadata := [],
                  journal := journal w @ [CreateTables]\<rparr>))"

definition create_unique_index :: "string \<Rightarrow> bool \<Rightarrow> world \<Rightarrow> error + world" where
  "create_unique_index n unique_rows w =
     (if \<not> created w then Inl OperationalError
      else if n \<in> set (indexes w) then Inl OperationalError
      else if \<not> unique_rows then Inl IntegrityError
      else Inr (w\<lparr>indexes := indexes w @ [n], journal := journal w @ [CreateIndex n]\<rparr>))"

text \<open>\<^verbatim>\<open>create_index\<close>: the two \<^verbatim>\<open>create unique index\<close> statements, in order.\<close>

definition create_index :: "world \<Rightarrow> world \<times> error option" where
  "create_index w =
     (case create_unique_index ''name'' (distinct (map fst (metadata w))) w of
        Inl e \<Rightarrow> (w, Some e)
      | Inr w1 \<Rightarrow>
          (case create_unique_index ''tile_index'' (distinct (map tile_key (tiles w1))) w1 of
             Inl e \<Rightarrow> (w1, Some e)
           | Inr w2 \<Rightarrow> (w2, None)))"

section \<open>The GDAL2Mbtiles object\<close>

text \<open>
  The fields of \<^verbatim>\<open>self\<close> (with those of \<^verbatim>\<open>self.options\<close>) that the modelled methods read.
  \<open>tminz\<close> and \<open>tmaxz\<close> are \<^verbatim>\<open>None\<close> after \<^verbatim>\<open>__init__\<close> unless \<^verbatim>\<open>-z\<close> was given. The fields from
  \<open>out_ds\<close> on are those that \<^verbatim>\<open>open_input\<close> derives from the input raster through GDAL;
  they are taken as given. \<^verbatim>\<open>self.out_drv.ShortName\<close> is \<open>tiledriver\<close>; \<open>output_path\<close> is
  \<^verbatim>\<open>self.output\<close>; \<open>kml\<close> is \<^verbatim>\<open>self.kml\<close> as \<^verbatim>\<open>open_input\<close> leaves it: the option
  \<^verbatim>\<open>--force-kml\<close> (off by default), switched off when the output is in EPSG:4326.
\<close>

record gdal2mbtiles =
  profile :: string
  resampling :: string
  resume :: bool
  processes :: int
  output_cache :: string
  webviewer :: string
  kml :: bool
  title :: string
  copyright :: string
  output_path :: string
  tileext :: string
  tiledriver :: string
  querysize :: int
  tminz :: "nat option"
  tmaxz :: "nat option"
  out_ds :: dataset
  dataBandsCount :: int
  tminmax :: "(int \<times> int \<times> int \<times> int) list"
  nativezoom :: nat
  tsize :: "int list"

text \<open>
  \<^verbatim>\<open>open_input\<close>, as far as the zoom range goes: a zoom level that \<^verbatim>\<open>-z\<close> left at \<^verbatim>\<open>None\<close>
  is derived from the pixel size \<^verbatim>\<open>out_gt[1]\<close> of the raster.
\<close>

definition open_input :: "gdal2mbtiles \<Rightarrow> gdal2mbtiles" where
  "open_input self =
     (case GetGeoTransform (out_ds self) of (g0, out_gt1, g2, g3, g4, g5) \<Rightarrow>
      let whole = out_gt1 * real_of_int (max (RasterXSize (out_ds self)) (RasterYSize (out_ds self)))
                    / real_of_int tilesize
      in if profile self = ''mercator'' then
           self\<lparr>tminz := (case tminz self of None \<Rightarrow> ZoomForPixelSize whole | Some z \<Rightarrow> Some z),
                 tmaxz := (case tmaxz self of None \<Rightarrow> ZoomForPixelSize out_gt1 | Some z \<Rightarrow> Some z)\<rparr>
         else if profile self = ''geodetic'' then
           self\<lparr>tminz := (case tminz self of None \<Rightarrow> Geodetic_ZoomForPixelSize whole | Some z \<Rightarrow> Some z),
                 tmaxz := (case tmaxz self of None \<Rightarrow> Geodetic_ZoomForPixelSize out_gt1 | Some z \<Rightarrow> Some z)\<rparr>
         else
           self\<lparr>tminz := (case tminz self of None \<Rightarrow> Some 0 | Some z \<Rightarrow> Some z),
                 tmaxz := (case tmaxz self of None \<Rightarrow> Some (nativezoom self) | Some z \<Rightarrow> Some z)\<rparr>)"

section \<open>Tile iteration shared by both phases\<close>

text \<open>
  The canonical order of \<^verbatim>\<open>for ty in range(tmaxy, tminy - 1, -1): for tx in range(tminx, tmaxx + 1)\<close>.
\<close>

definition tile_order :: "int \<times> int \<times> int \<times> int \<Rightarrow> (int \<times> int) list" where
  "tile_order r =
     (case r of (tminx, tminy, tmaxx, tmaxy) \<Rightarrow>
        concat (map (\<lambda>ty. map (\<lambda>tx. (tx, ty)) [tminx..tmaxx]) (rev [tminy..tmaxy])))"

text \<open>
  The loop over the tiles, with the counter \<^verbatim>\<open>ti\<close> and the round-robin test
  \<^verbatim>\<open>if (ti - 1) % self.options.processes != cpu: continue\<close>; \<open>body\<close> is the rest of the loop
  body. An exception raised by the body ends the loop. \<^verbatim>\<open>self.stopped\<close> is never set in a
  worker, so the \<^verbatim>\<open>break\<close> is left out.
\<close>

fun tile_loop :: "(int \<Rightarrow> int \<Rightarrow> world \<Rightarrow> world \<times> error option) \<Rightarrow> int \<Rightarrow> int \<Rightarrow> int
    \<Rightarrow> (int \<times> int) list \<Rightarrow> world \<Rightarrow> world \<times> error option" where
  "tile_loop body procs cpu ti [] w = (w, None)"
| "tile_loop body procs cpu ti ((tx, ty) # rest) w =
     (let ti = ti + 1 in
      if procs = 0 then (w, Some ZeroDivisionError)
      else if (ti - 1) mod procs \<noteq> cpu then tile_loop body procs cpu ti rest w
      else (case body tx ty w of
              (w', Some e) \<Rightarrow> (w', Some e)
            | (w', None) \<Rightarrow> tile_loop body procs cpu ti rest w'))"

text \<open>The tiles of the enumeration for which worker \<open>cpu\<close> runs the loop body.\<close>

fun claimed :: "int \<Rightarrow> int \<Rightarrow> int \<Rightarrow> (int \<times> int) list \<Rightarrow> (int \<times> int) list" where
  "claimed procs cpu ti [] = []"
| "claimed procs cpu ti (t # rest) =
     (let ti = ti + 1 in
      if (ti - 1) mod procs \<noteq> cpu then claimed procs cpu ti rest
      else t # claimed procs cpu ti rest)"

text \<open>Running the loop body on a list of tiles, stopping at the first exception.\<close>

fun run_tiles :: "(int \<Rightarrow> int \<Rightarrow> world \<Rightarrow> world \<times> error option) \<Rightarrow> (int \<times> int) list
    \<Rightarrow> world \<Rightarrow> world \<times> error option" where
  "run_tiles body [] w = (w, None)"
| "run_tiles body ((tx, ty) # rest) w =
     (case body tx ty w of
        (w', Some e) \<Rightarrow> (w', Some e)
      | (w', None) \<Rightarrow> run_tiles body rest w')"

section \<open>Scaling a query to a tile\<close>

text \<open>
  \<^verbatim>\<open>im1.save(tilefilename, self.tiledriver)\<close>: PIL opens the file for writing, which needs
  the directory of the path. The path lies under \<^verbatim>\<open>self.output\<close>, the archive file, so
  that without the directory the exception is \<^verbatim>\<open>NotADirectoryError\<close>.
\<close>

definition save_tile_file :: "path \<Rightarrow> image \<Rightarrow> world \<Rightarrow> error + world" where
  "save_tile_file tilefilename im w =
     (case tilefilename of TileFile out tz tx ty_final ext \<Rightarrow>
        if (out, tz, tx) \<in> directories w
        then Inr (w\<lparr>files := (files w)(tilefilename \<mapsto> im)\<rparr>)
        else Inl NotADirectoryError)"

text \<open>
  \<^verbatim>\<open>scale_query_to_tile(dsquery, dstile, tilefilename)\<close>: the result is the content of
  \<^verbatim>\<open>dstile\<close> afterwards and the world afterwards. The antialias branch leaves \<^verbatim>\<open>dstile\<close> as
  it was and saves the resized image, composited over the file already there, at
  \<^verbatim>\<open>tilefilename\<close>; the save raises when the file cannot be opened.
\<close>

definition scale_query_to_tile :: "gdal2mbtiles \<Rightarrow> image \<Rightarrow> image \<Rightarrow> path \<Rightarrow> world
    \<Rightarrow> error + (image \<times> world)" where
  "scale_query_to_tile self dsquery dstile tilefilename w =
     (if resampling self = ''average'' then Inr (Resampled ''average'' dsquery, w)
      else if resampling self = ''antialias'' then
        (let im1 = Image_resize dsquery;
             im1 = (case files w tilefilename of
                      Some im0 \<Rightarrow> Image_composite im1 im0 im1
                    | None \<Rightarrow> im1)
         in case save_tile_file tilefilename im1 w of
              Inl e \<Rightarrow> Inl e
            | Inr w' \<Rightarrow> Inr (dstile, w'))
      else Inr (Resampled (resampling self) dsquery, w))"

section \<open>Base tiles\<close>

text \<open>
  The read and write windows of a base tile and the query size used: through \<^verbatim>\<open>geo_query\<close>
  for the mercator and geodetic profiles (called twice, first without a query size),
  by integer arithmetic on the tile size \<^verbatim>\<open>self.tsize[tz]\<close> for the raster profile.
\<close>

definition base_windows :: "gdal2mbtiles \<Rightarrow> nat \<Rightarrow> int \<Rightarrow> int \<Rightarrow> int \<Rightarrow> int
    \<Rightarrow> error + (window \<times> window \<times> int)" where
  "base_windows self tz tx ty tmaxx tmaxy =
     (if profile self = ''mercator'' \<or> profile self = ''geodetic'' then
        (case (if profile self = ''mercator'' then TileBounds tx ty tz
               else Geodetic_TileBounds tx ty tz) of (b0, b1, b2, b3) \<Rightarrow>
         case geo_query (out_ds self) b0 b3 b2 b1 0 of
           Inl e \<Rightarrow> Inl e
         | Inr native \<Rightarrow>
             (case geo_query (out_ds self) b0 b3 b2 b1 (querysize self) of
                Inl e \<Rightarrow> Inl e
              | Inr (rb, wb) \<Rightarrow> Inr (rb, wb, querysize self)))
      else if \<not> tz < length (tsize self) then Inl IndexError
      else
        (let tsize' = tsize self ! tz;
             xsize = RasterXSize (out_ds self);
             ysize = RasterYSize (out_ds self);
             querysize' = (if tz \<ge> nativezoom self then tilesize else querysize self)
         in if tsize' = 0 then Inl ZeroDivisionError
            else
              (let rx = tx * tsize';
                   rxsize = 0;
                   rxsize = (if tx = tmaxx then xsize mod tsize' else rxsize);
                   rxsize = (if rxsize = 0 then tsize' else rxsize);
                   rysize = 0;
                   rysize = (if ty = tmaxy then ysize mod tsize' else rysize);
                   rysize = (if rysize = 0 then tsize' else rysize);
                   ry = ysize - (ty * tsize') - rysize;
                   wx = 0;
                   wy = 0;
                   wxsize = py_int (real_of_int rxsize / real_of_int tsize' * real_of_int tilesize);
                   wysize = py_int (real_of_int rysize / real_of_int tsize' * real_of_int tilesize);
                   wy = (if wysize \<noteq> tilesize then tilesize - wysize else wy)
               in Inr ((rx, ry, rxsize, rysize), (wx, wy, wxsize, wysize), querysize'))))"

text \<open>
  Both tile loops compute \<^verbatim>\<open>ty_final\<close> from the output convention and build \<^verbatim>\<open>tilefilename\<close>
  from it, and both end with the same block: unless the resampling is antialias, the tile
  dataset is encoded and inserted. The \<^verbatim>\<open>INSERT\<close> is given \<^verbatim>\<open>(tz, tx, ty)\<close>.
\<close>

definition tilefilename :: "gdal2mbtiles \<Rightarrow> nat \<Rightarrow> int \<Rightarrow> int \<Rightarrow> path" where
  "tilefilename self tz tx ty =
     (let ty_final = (if output_cache self = ''xyz'' then (2 ^ tz - 1) - ty else ty)
      in TileFile (output_path self) tz tx ty_final (tileext self))"

definition write_tile :: "gdal2mbtiles \<Rightarrow> nat \<Rightarrow> int \<Rightarrow> int \<Rightarrow> image \<Rightarrow> world \<Rightarrow> world \<times> error option" where
  "write_tile self tz tx ty dstile w =
     (if resampling self \<noteq> ''antialias'' then
        (case insert_tile tz tx ty (Image_save (tiledriver self) dstile) w of
           Inl e \<Rightarrow> (w, Some e)
         | Inr w' \<Rightarrow> (w', None))
      else (w, None))"

text \<open>
  The tile dataset of a base tile, from its windows: the raster data are written directly
  into the tile when the query size is the tile size, and into a query dataset that
  \<^verbatim>\<open>scale_query_to_tile\<close> scales down otherwise.
\<close>

definition base_dstile :: "gdal2mbtiles \<Rightarrow> window \<Rightarrow> window \<Rightarrow> int \<Rightarrow> path \<Rightarrow> world
    \<Rightarrow> error + (image \<times> world)" where
  "base_dstile self rb wb querysize' file w =
     (case rb of (rx, ry, rxsize, rysize) \<Rightarrow>
      case wb of (wx, wy, wxsize, wysize) \<Rightarrow>
        (let tilebands = dataBandsCount self + 1;
             data = ReadRaster (rx, ry, rxsize, rysize) (wxsize, wysize)
         in if tilesize = querysize'
            then Inr (MEM_Create tilesize tilebands [(wx, wy, data)], w)
            else scale_query_to_tile self (MEM_Create querysize' tilebands [(wx, wy, data)])
                   (MEM_Create tilesize tilebands []) file w))"

text \<open>
  The body of the loop of \<^verbatim>\<open>generate_base_tiles\<close> for the tile \<^verbatim>\<open>(tx, ty)\<close> at zoom \<^verbatim>\<open>tz\<close>, after
  the round-robin test: skip when the tile file exists, skip in resume mode when the
  \<^verbatim>\<open>SELECT\<close> on \<^verbatim>\<open>(tz, tx, ty)\<close> finds a row, and compute and write the tile otherwise.
  An exception of \<^verbatim>\<open>scale_query_to_tile\<close> ends the loop before the \<^verbatim>\<open>INSERT\<close>.
\<close>

definition base_tile :: "gdal2mbtiles \<Rightarrow> nat \<Rightarrow> int \<Rightarrow> int \<Rightarrow> int \<Rightarrow> int \<Rightarrow> world
    \<Rightarrow> world \<times> error option" where
  "base_tile self tz tmaxx tmaxy tx ty w =
     (if files w (tilefilename self tz tx ty) \<noteq> None then (w, None)
      else
        (case (if resume self then select_tile_data w tz tx ty else Inr None) of
           Inl e \<Rightarrow> (w, Some e)
         | Inr (Some exists) \<Rightarrow> (w, None)
         | Inr None \<Rightarrow>
             (case base_windows self tz tx ty tmaxx tmaxy of
                Inl e \<Rightarrow> (w, Some e)
              | Inr (rb, wb, querysize') \<Rightarrow>
                  (case base_dstile self rb wb querysize' (tilefilename self tz tx ty) w of
                     Inl e \<Rightarrow> (w, Some e)
                   | Inr (dstile, w') \<Rightarrow> write_tile self tz tx ty dstile w'))))"

text \<open>
  \<^verbatim>\<open>generate_base_tiles(cpu, queue, con)\<close>. \<^verbatim>\<open>self.tminmax[self.tmaxz]\<close> raises when \<^verbatim>\<open>tmaxz\<close> is
  \<^verbatim>\<open>None\<close> or out of range.
\<close>

definition generate_base_tiles :: "gdal2mbtiles \<Rightarrow> int \<Rightarrow> world \<Rightarrow> world \<times> error option" where
  "generate_base_tiles self cpu w =
     (case tmaxz self of
        None \<Rightarrow> (w, Some TypeError)
      | Some tz \<Rightarrow>
          if \<not> tz < length (tminmax self) then (w, Some IndexError)
          else
            (case tminmax self ! tz of (tminx, tminy, tmaxx, tmaxy) \<Rightarrow>
               tile_loop (base_tile self tz tmaxx tmaxy) (processes self) cpu 0
                 (tile_order (tminx, tminy, tmaxx, tmaxy)) w))"

section \<open>Overview tiles\<close>

text \<open>
  The two nested loops over the children \<^verbatim>\<open>(x, y)\<close> of a parent tile, as a recursion over
  the list of the four positions; \<open>paints\<close> collects the \<^verbatim>\<open>WriteArray\<close> calls on \<^verbatim>\<open>dsquery\<close>.
  \<^verbatim>\<open>blob_tile[0]\<close> raises \<^verbatim>\<open>TypeError\<close> when \<^verbatim>\<open>fetchone()\<close> returned \<^verbatim>\<open>None\<close>.
\<close>

fun paint_children :: "gdal2mbtiles \<Rightarrow> nat \<Rightarrow> int \<Rightarrow> int \<Rightarrow> world \<Rightarrow> (int \<times> int) list
    \<Rightarrow> (int \<times> int \<times> image) list \<Rightarrow> error + (int \<times> int \<times> image) list" where
  "paint_children self tz tx ty w [] paints = Inr paints"
| "paint_children self tz tx ty w ((x, y) # rest) paints =
     (if \<not> tz + 1 < length (tminmax self) then Inl IndexError
      else
        (case tminmax self ! (tz + 1) of (minx, miny, maxx, maxy) \<Rightarrow>
           if x \<ge> minx \<and> x \<le> maxx \<and> y \<ge> miny \<and> y \<le> maxy then
             (case select_tile_data w (tz + 1) x y of
                Inl e \<Rightarrow> Inl e
              | Inr None \<Rightarrow> Inl TypeError
              | Inr (Some blob_tile) \<Rightarrow>
                  paint_children self tz tx ty w rest
                    (paints @ [(tileposx tx x, tileposy ty y, Image_open blob_tile)]))
           else paint_children self tz tx ty w rest paints))"

definition children :: "int \<Rightarrow> int \<Rightarrow> (int \<times> int) list" where
  "children tx ty = concat (map (\<lambda>y. map (\<lambda>x. (x, y)) [2 * tx..2 * tx + 1]) [2 * ty..2 * ty + 1])"

text \<open>
  The body of the loop of \<^verbatim>\<open>generate_overview_tiles\<close>, after the round-robin test. The
  \<^verbatim>\<open>SELECT\<close> of each child is given \<^verbatim>\<open>(tz + 1, x, y)\<close>.
\<close>

definition overview_tile :: "gdal2mbtiles \<Rightarrow> nat \<Rightarrow> int \<Rightarrow> int \<Rightarrow> world \<Rightarrow> world \<times> error option" where
  "overview_tile self tz tx ty w =
     (if resume self \<and> files w (tilefilename self tz tx ty) \<noteq> None then (w, None)
      else
        (let tilebands = dataBandsCount self + 1;
             tilebands = (if tiledriver self = ''JPEG'' \<and> tilebands = 4 then 3 else tilebands)
         in case paint_children self tz tx ty w (children tx ty) [] of
              Inl e \<Rightarrow> (w, Some e)
            | Inr paints \<Rightarrow>
                (case scale_query_to_tile self
                        (MEM_Create (2 * tilesize) tilebands paints)
                        (MEM_Create tilesize tilebands []) (tilefilename self tz tx ty) w of
                   Inl e \<Rightarrow> (w, Some e)
                 | Inr (dstile, w') \<Rightarrow> write_tile self tz tx ty dstile w')))"

text \<open>
  \<^verbatim>\<open>generate_overview_tiles(cpu, tz, queue, con)\<close>. The first loop, which only counts tiles,
  raises when \<^verbatim>\<open>tmaxz\<close> or \<^verbatim>\<open>tminz\<close> is \<^verbatim>\<open>None\<close> or when one of its zoom levels has no entry
  in \<^verbatim>\<open>tminmax\<close>.
\<close>

definition generate_overview_tiles :: "gdal2mbtiles \<Rightarrow> int \<Rightarrow> nat \<Rightarrow> world \<Rightarrow> world \<times> error option" where
  "generate_overview_tiles self cpu tz w =
     (case (tmaxz self, tminz self) of
        (Some zmax, Some zmin) \<Rightarrow>
          if \<not> list_all (\<lambda>z. z < length (tminmax self)) (rev [zmin..<zmax]) then (w, Some IndexError)
          else if \<not> tz < length (tminmax self) then (w, Some IndexError)
          else
            (case tminmax self ! tz of (tminx, tminy, tmaxx, tmaxy) \<Rightarrow>
               tile_loop (overview_tile self tz) (processes self) cpu 0
                 (tile_order (tminx, tminy, tmaxx, tmaxy)) w)
      | _ \<Rightarrow> (w, Some TypeError))"

section \<open>Metadata\<close>

definition MetersToLatLon :: "real \<Rightarrow> real \<Rightarrow> real \<times> real" where
  "MetersToLatLon mx my =
     (let lon = (mx / originShift) * 180;
          lat = (my / originShift) * 180;
          lat = 180 / pi * (2 * arctan (exp (lat * pi / 180)) - pi / 2)
      in (lat, lon))"

text \<open>
  The output bounds \<^verbatim>\<open>(ominx, ominy, omaxx, omaxy)\<close> that \<^verbatim>\<open>open_input\<close> computes from the
  geotransform and the size of the raster.
\<close>

definition output_bounds :: "dataset \<Rightarrow> real \<times> real \<times> real \<times> real" where
  "output_bounds ds =
     (case GetGeoTransform ds of (g0, g1, g2, g3, g4, g5) \<Rightarrow>
        (g0, g3 - real_of_int (RasterYSize ds) * g1, g0 + real_of_int (RasterXSize ds) * g1, g3))"

text \<open>\<^verbatim>\<open>self.swne\<close> as \<^verbatim>\<open>generate_metadata\<close> sets it for the mercator profile.\<close>

definition mercator_swne :: "gdal2mbtiles \<Rightarrow> real \<times> real \<times> real \<times> real" where
  "mercator_swne self =
     (case output_bounds (out_ds self) of (ominx, ominy, omaxx, omaxy) \<Rightarrow>
      case MetersToLatLon ominx ominy of (south, west) \<Rightarrow>
      case MetersToLatLon omaxx omaxy of (north, east) \<Rightarrow>
        (max (- 85.05112878) south, max (- 180) west, min 85.05112878 north, min 180 east))"

text \<open>\<^verbatim>\<open>s.replace('"', '\\"')\<close>: a backslash before every double quote.\<close>

definition replace_quote :: "string \<Rightarrow> string" where
  "replace_quote s = concat (map (\<lambda>c. if c = CHR 0x22 then [CHR 0x5C, CHR 0x22] else [c]) s)"

definition zoom_value :: "nat option \<Rightarrow> pyval" where
  "zoom_value z = (case z of None \<Rightarrow> PyNone | Some n \<Rightarrow> PyInt (int n))"

text \<open>
  \<^verbatim>\<open>generate_metadatajson\<close>: the dictionary, as the list of its items in the order of the
  source text. \<open>str\<close> stands for Python's \<^verbatim>\<open>str\<close> on floats, which the model leaves open.
\<close>

definition generate_metadatajson :: "(real \<Rightarrow> string) \<Rightarrow> gdal2mbtiles \<Rightarrow> (string \<times> pyval) list" where
  "generate_metadatajson str self =
     (case mercator_swne self of (south, west, north, east) \<Rightarrow>
        [(''name'', PyStr (replace_quote (title self))),
         (''description'', PyStr (title self)),
         (''version'', PyStr ''1.0.0''),
         (''attribution'', PyStr (replace_quote (copyright self))),
         (''type'', PyStr ''overlay''),
         (''format'', PyStr (tileext self)),
         (''minzoom'', zoom_value (tminz self)),
         (''maxzoom'', zoom_value (tmaxz self)),
         (''bounds'', PyStr (str south @ '' '' @ str west @ '' '' @ str north @ '' '' @ str east)),
         (''scale'', PyStr ''1''),
         (''profile'', PyStr ''mercator'')])"

fun insert_metadata_rows :: "(string \<times> pyval) list \<Rightarrow> world \<Rightarrow> world \<times> error option" where
  "insert_metadata_rows [] w = (w, None)"
| "insert_metadata_rows ((n, v) # rest) w =
     (case insert_metadata n v w of
        Inl e \<Rightarrow> (w, Some e)
      | Inr w' \<Rightarrow> insert_metadata_rows rest w')"

text \<open>
  \<^verbatim>\<open>generate_tilemapresource\<close>: of the string returned, the zoom levels of its \<^verbatim>\<open>TileSet\<close>
  elements. \<^verbatim>\<open>range(self.tminz, self.tmaxz + 1)\<close> raises \<^verbatim>\<open>TypeError\<close> when a zoom level is
  \<^verbatim>\<open>None\<close>.
\<close>

definition generate_tilemapresource :: "gdal2mbtiles \<Rightarrow> error + nat list" where
  "generate_tilemapresource self =
     (case (tminz self, tmaxz self) of
        (Some zmin, Some zmax) \<Rightarrow> Inr [zmin..<zmax + 1]
      | _ \<Rightarrow> Inl TypeError)"

text \<open>
  The children of the root KML, as the KML block of \<^verbatim>\<open>generate_metadata\<close> collects them:
  \<^verbatim>\<open>self.tminmax[self.tminz]\<close> raises when \<^verbatim>\<open>tminz\<close> is \<^verbatim>\<open>None\<close> or out of range.
\<close>

definition root_kml_children :: "gdal2mbtiles \<Rightarrow> error + (int \<times> int \<times> nat) list" where
  "root_kml_children self =
     (case tminz self of
        None \<Rightarrow> Inl TypeError
      | Some z \<Rightarrow>
          if \<not> z < length (tminmax self) then Inl IndexError
          else
            (case tminmax self ! z of (xmin, ymin, xmax, ymax) \<Rightarrow>
               Inr (concat (map (\<lambda>x. map (\<lambda>y. (x, y, z)) [ymin..ymax]) [xmin..xmax]))))"

text \<open>
  The part of \<^verbatim>\<open>generate_metadata\<close> for \<^verbatim>\<open>metadata.json\<close>: the only \<^verbatim>\<open>INSERT\<close> of the method
  is in the mercator branch, under the test of the web viewer option, where
  \<^verbatim>\<open>metadata.json\<close> is written (\<^verbatim>\<open>not resume or not exists\<close> is written as the negation of a
  conjunction).
\<close>

definition write_metadatajson :: "(real \<Rightarrow> string) \<Rightarrow> gdal2mbtiles \<Rightarrow> world \<Rightarrow> world \<times> error option" where
  "write_metadatajson str self w =
     (if profile self = ''mercator'' then
        (if webviewer self = ''all'' \<or> webviewer self = ''metadata'' then
           (if \<not> (resume self \<and> ''metadata.json'' \<in> output_dir w) then
              (let metadata_dict = generate_metadatajson str self;
                   w = w\<lparr>output_dir := insert ''metadata.json'' (output_dir w)\<rparr>
               in insert_metadata_rows metadata_dict w)
            else (w, None))
         else (w, None))
      else (w, None))"

text \<open>
  The part for \<^verbatim>\<open>tilemapresource.xml\<close>, which follows the branches of the profiles: the file
  is opened before \<^verbatim>\<open>generate_tilemapresource()\<close> is called.
\<close>

definition write_tilemapresource :: "gdal2mbtiles \<Rightarrow> world \<Rightarrow> world \<times> error option" where
  "write_tilemapresource self w =
     (if \<not> (resume self \<and> ''tilemapresource.xml'' \<in> output_dir w) then
        (let w = w\<lparr>output_dir := insert ''tilemapresource.xml'' (output_dir w)\<rparr>
         in case generate_tilemapresource self of
              Inl e \<Rightarrow> (w, Some e)
            | Inr s \<Rightarrow> (w, None))
      else (w, None))"

text \<open>The KML block at the end, which writes \<^verbatim>\<open>doc.kml\<close>.\<close>

definition write_root_kml :: "gdal2mbtiles \<Rightarrow> world \<Rightarrow> world \<times> error option" where
  "write_root_kml self w =
     (if kml self then
        (case root_kml_children self of
           Inl e \<Rightarrow> (w, Some e)
         | Inr children' \<Rightarrow>
             (if \<not> (resume self \<and> ''doc.kml'' \<in> output_dir w)
              then (w\<lparr>output_dir := insert ''doc.kml'' (output_dir w)\<rparr>, None)
              else (w, None)))
      else (w, None))"

text \<open>
  \<^verbatim>\<open>generate_metadata(cur)\<close>: the three parts in the order of the source, an exception of one
  ending the method. The HTML viewers are left out: they are only written to the output
  directory, and their templates format the zoom levels with \<^verbatim>\<open>%s\<close>, which takes \<^verbatim>\<open>None\<close>.
\<close>

definition generate_metadata :: "(real \<Rightarrow> string) \<Rightarrow> gdal2mbtiles \<Rightarrow> world \<Rightarrow> world \<times> error option" where
  "generate_metadata str self w =
     (case write_metadatajson str self w of
        (w, Some e) \<Rightarrow> (w, Some e)
      | (w, None) \<Rightarrow>
          (case write_tilemapresource self w of
             (w, Some e) \<Rightarrow> (w, Some e)
           | (w, None) \<Rightarrow> write_root_kml self w))"

section \<open>Workers and the main program\<close>

text \<open>
  Each worker is a process that builds its own object from the command line, opens the
  input and calls one method; an exception ends that process only.

  \<^verbatim>\<open>worker_metadata\<close> commits once, after \<^verbatim>\<open>generate_metadata\<close> has returned. The
  \<^verbatim>\<open>CREATE TABLE\<close> statements take effect at once; the metadata \<^verbatim>\<open>INSERT\<close>s stay in the open
  transaction, and an exception raised by \<^verbatim>\<open>generate_metadata\<close> ends the process before
  \<^verbatim>\<open>con.commit()\<close>: the rows are then not in the archive. The files written before the
  exception remain.
\<close>

definition worker_metadata :: "(real \<Rightarrow> string) \<Rightarrow> gdal2mbtiles \<Rightarrow> world \<Rightarrow> world \<times> error option" where
  "worker_metadata str gdal2mbtiles w =
     (let self = open_input gdal2mbtiles in
      if \<not> resume self then
        (case mbtiles_setup w of
           Inl e \<Rightarrow> (w, Some e)
         | Inr w' \<Rightarrow>
             (case generate_metadata str self w' of
                (w'', Some e) \<Rightarrow> (w''\<lparr>metadata := metadata w', journal := journal w'\<rparr>, Some e)
              | (w'', None) \<Rightarrow> (w'', None)))
      else (w, None))"

definition worker_base_tiles :: "gdal2mbtiles \<Rightarrow> int \<Rightarrow> world \<Rightarrow> world \<times> error option" where
  "worker_base_tiles gdal2mbtiles cpu w = generate_base_tiles (open_input gdal2mbtiles) cpu w"

definition worker_overview_tiles :: "gdal2mbtiles \<Rightarrow> int \<Rightarrow> nat \<Rightarrow> world \<Rightarrow> world \<times> error option" where
  "worker_overview_tiles gdal2mbtiles cpu tz w =
     generate_overview_tiles (open_input gdal2mbtiles) cpu tz w"

text \<open>
  \<^verbatim>\<open>main\<close>. The processes of one phase are joined before the next phase starts; the model
  runs the workers of a phase one after the other, in the order in which they are
  started. \<^verbatim>\<open>main\<close> reads \<^verbatim>\<open>tminz\<close> and \<^verbatim>\<open>tmaxz\<close> from its own object, on which \<^verbatim>\<open>open_input\<close>
  was never called: \<^verbatim>\<open>range(tmaxz - 1, tminz - 1, -1)\<close> raises \<^verbatim>\<open>TypeError\<close> when they are
  \<^verbatim>\<open>None\<close>. The final \<^verbatim>\<open>PRAGMA journal_mode=DELETE\<close> changes no table.
\<close>

definition base_phase :: "gdal2mbtiles \<Rightarrow> world \<Rightarrow> world" where
  "base_phase gdal2mbtiles w =
     foldl (\<lambda>w cpu. fst (worker_base_tiles gdal2mbtiles cpu w)) w [0..processes gdal2mbtiles - 1]"

definition overview_phase :: "gdal2mbtiles \<Rightarrow> nat \<Rightarrow> world \<Rightarrow> world" where
  "overview_phase gdal2mbtiles tz w =
     foldl (\<lambda>w cpu. fst (worker_overview_tiles gdal2mbtiles (cpu mod processes gdal2mbtiles) tz w)) w
       [0..processes gdal2mbtiles - 1]"

definition main :: "(real \<Rightarrow> string) \<Rightarrow> gdal2mbtiles \<Rightarrow> world \<Rightarrow> world \<times> error option" where
  "main str gdal2mbtiles w =
     (let w = fst (worker_metadata str gdal2mbtiles w);
          w = base_phase gdal2mbtiles w
      in case (tmaxz gdal2mbtiles, tminz gdal2mbtiles) of
           (Some zmax, Some zmin) \<Rightarrow>
             (let w = foldl (\<lambda>w tz. overview_phase gdal2mbtiles tz w) w (rev [zmin..<zmax])
              in if \<not> resume gdal2mbtiles then create_index w else (w, None))
         | _ \<Rightarrow> (w, Some TypeError))"

section \<open>Relations between archives, for the proofs\<close>

text \<open>
  \<open>tiles_only w w'\<close>: from \<open>w\<close> to \<open>w'\<close> only tile rows were inserted, and no directory was
  created. \<open>extends w w'\<close>: the metadata table is the same and the history was only extended.
\<close>

definition tile_statement :: "nat \<times> int \<times> int \<times> image \<Rightarrow> statement" where
  "tile_statement row = (case row of (z, x, y, d) \<Rightarrow> InsertTile z x y)"

definition tiles_only :: "world \<Rightarrow> world \<Rightarrow> bool" where
  "tiles_only w w' \<longleftrightarrow>
     created w' = created w \<and> metadata w' = metadata w \<and> indexes w' = indexes w
     \<and> directories w' = directories w
     \<and> (\<exists>rows. tiles w' = tiles w @ rows \<and> journal w' = journal w @ map tile_statement rows)"

definition extends :: "world \<Rightarrow> world \<Rightarrow> bool" where
  "extends w w' \<longleftrightarrow> metadata w' = metadata w \<and> (\<exists>js. journal w' = journal w @ js)"

text \<open>
  \<open>keys_in S w\<close>: the keys of the tile rows of \<open>w\<close> are distinct and lie in \<open>S\<close>;
  \<open>zooms_in Z w\<close>: they are distinct and their zoom levels lie in \<open>Z\<close>.
\<close>

definition keys_in :: "(nat \<times> int \<times> int) set \<Rightarrow> world \<Rightarrow> bool" where
  "keys_in S w \<longleftrightarrow> distinct (map tile_key (tiles w)) \<and> set (map tile_key (tiles w)) \<subseteq> S"



text \<open>The keys of the metadata rows, in the order of \<^verbatim>\<open>generate_metadatajson\<close>.\<close>

definition metadata_keys :: "string list" where
  "metadata_keys = [''name'', ''description'', ''version'', ''attribution'', ''type'', ''format'',
     ''minzoom'', ''maxzoom'', ''bounds'', ''scale'', ''profile'']"

section \<open>An example run\<close>

text \<open>
  A geodetic run on a 256 x 256 raster that covers longitudes -180 to -90 and latitudes
  -90 to 0, with \<^verbatim>\<open>-p geodetic -r near -z 1-2 --processes 1\<close> and the default \<^verbatim>\<open>-o xyz\<close>.
  \<open>tminmax\<close> is the table that \<^verbatim>\<open>open_input\<close> computes for this raster.
\<close>

definition quarter_raster :: dataset where
  "quarter_raster = \<lparr>RasterXSize = 256, RasterYSize = 256,
     GetGeoTransform = (- 180, 90 / 256, 0, 0, 0, - (90 / 256))\<rparr>"

definition example_run :: gdal2mbtiles where
  "example_run =
     \<lparr>profile = ''geodetic'', resampling = ''near'', resume = False, processes = 1,
      output_cache = ''xyz'', webviewer = ''all'', kml = False, title = ''in.tif'', copyright = [],
      output_path = ''out.mbtiles'', tileext = ''png'', tiledriver = ''PNG'', querysize = 256,
      tminz = Some 1, tmaxz = Some 2, out_ds = quarter_raster, dataBandsCount = 3,
      tminmax = map (\<lambda>tz. (0, 0, 2 ^ (tz - 1) - 1, 2 ^ (tz - 1) - 1)) [0..<32],
      nativezoom = 0, tsize = []\<rparr>"

definition base_blob :: "window \<Rightarrow> image" where
  "base_blob rb = Image_save ''PNG'' (MEM_Create 256 4 [(0, 0, ReadRaster rb (256, 256))])"

definition example_tiles :: "(nat \<times> int \<times> int \<times> image) list" where
  "example_tiles =
     [(2, 0, 1, base_blob (0, 0, 128, 128)),
      (2, 1, 1, base_blob (128, 0, 128, 128)),
      (2, 0, 0, base_blob (0, 128, 128, 128)),
      (2, 1, 0, base_blob (128, 128, 128, 128))]"

definition overview_blob :: image where
  "overview_blob = Image_save ''PNG'' (Resampled ''near'' (MEM_Create 512 4
     [(0, 256, Image_open (base_blob (0, 128, 128, 128))),
      (256, 256, Image_open (base_blob (128, 128, 128, 128))),
      (0, 0, Image_open (base_blob (0, 0, 128, 128))),
      (256, 0, Image_open (base_blob (128, 0, 128, 128)))]))"

definition example_result :: world where
  "example_result =
     \<lparr>created = True, tiles = example_tiles @ [(1, 0, 0, overview_blob)], metadata = [],
      indexes = [''name'', ''tile_index''],
      journal = [CreateTables, InsertTile 2 0 1, InsertTile 2 1 1, InsertTile 2 0 0,
                 InsertTile 2 1 0, InsertTile 1 0 0, CreateIndex ''name'', CreateIndex ''tile_index''],
      files = Map.empty, directories = {}, output_dir = {''tilemapresource.xml''}\<rparr>"



text \<open>An archive with the tables in which the base tile \<open>(2, 1, 0)\<close> is missing.\<close>

definition missing_child_archive :: world where
  "missing_child_archive =
     \<lparr>created = True, tiles = butlast example_tiles, metadata = [],
      indexes = [], journal = [], files = Map.empty, directories = {}, output_dir = {}\<rparr>"

text \<open>The same run with \<^verbatim>\<open>-p mercator\<close>, and with \<^verbatim>\<open>-r antialias\<close> (query size 1024).\<close>

definition mercator_run :: gdal2mbtiles where
  "mercator_run = example_run\<lparr>profile := ''mercator''\<rparr>"


section \<open>Theorems\<close>

subsection \<open>Quadrant selection\<close>

lemma child_mod_parent:
  fixes t :: int
  assumes "0 < t"
  shows "(2 * t) mod (2 * t) = 0" and "(2 * t + 1) mod (2 * t) = 1"
proof -
  show "(2 * t) mod (2 * t) = 0" by simp
  have "(2 * t + 1) mod (2 * t) = 1 mod (2 * t)"
    by (metis add.commute mod_add_self2)
  also have "\<dots> = 1" using assms by (simp add: mod_pos_pos_trivial)
  finally show "(2 * t + 1) mod (2 * t) = 1" .
qed

text \<open>
  C7. For a parent \<open>(tx, ty)\<close> with non-negative indices and a child \<open>(cx, cy)\<close> among its
  four, the offsets computed by the code are those of the simpler rule: the Y offset is 0
  exactly when \<open>cy - 2 ty = 1\<close> (otherwise 256), and the X offset is 256 exactly when
  \<open>cx - 2 tx = 1\<close> (otherwise 0).
\<close>

theorem quadrant_rule_equivalent:
  assumes "0 \<le> tx" and "0 \<le> ty"
    and "cx = 2 * tx \<or> cx = 2 * tx + 1"
    and "cy = 2 * ty \<or> cy = 2 * ty + 1"
  shows "tileposy ty cy = tileposy_simple ty cy
       \<and> tileposx tx cx = tileposx_simple tx cx
       \<and> (tileposy ty cy = 0 \<longleftrightarrow> cy - 2 * ty = 1)
       \<and> (tileposx tx cx = 256 \<longleftrightarrow> cx - 2 * tx = 1)"
proof -
  have y: "tileposy ty cy = tileposy_simple ty cy"
  proof (cases "ty = 0")
    case True
    with assms(4) show ?thesis by (auto simp: tileposy_def tileposy_simple_def tilesize_def)
  next
    case False
    with assms(2) have "0 < ty" by simp
    from child_mod_parent[OF this] assms(4) False show ?thesis
      by (auto simp: tileposy_def tileposy_simple_def tilesize_def)
  qed
  have x: "tileposx tx cx = tileposx_simple tx cx"
  proof (cases "tx = 0")
    case True
    with assms(3) show ?thesis by (auto simp: tileposx_def tileposx_simple_def tilesize_def)
  next
    case False
    with assms(1) have "0 < tx" by simp
    from child_mod_parent[OF this] assms(3) False show ?thesis
      by (auto simp: tileposx_def tileposx_simple_def tilesize_def)
  qed
  show ?thesis
    unfolding x y by (simp add: tileposy_simple_def tileposx_simple_def)
qed

theorem quadrant_rule_equivalent_witness:
  "tileposy 3 7 = tileposy_simple 3 7 \<and> tileposx 0 1 = tileposx_simple 0 1
   \<and> tileposy 3 7 = 0 \<and> tileposx 0 1 = 256"
  using quadrant_rule_equivalent [of 0 3 1 7] by simp

subsection \<open>Rounding to a double\<close>

lemma round_half_even_err: "\<bar>of_int (round_half_even y) - y\<bar> \<le> 1 / 2"
  unfolding round_half_even_def Let_def by (auto; linarith)

lemma round_half_even_int: "round_half_even (of_int n) = n"
  by (simp add: round_half_even_def)

lemma round_half_even_numeral: "round_half_even (numeral k) = numeral k"
  by (simp add: round_half_even_def)

lemma round_half_even_mono: "of_int m \<le> y \<Longrightarrow> m \<le> round_half_even y"
  unfolding round_half_even_def Let_def by (auto simp: le_floor_iff; linarith)

lemma round_half_even_le: "y \<le> of_int m \<Longrightarrow> round_half_even y \<le> m"
  unfolding round_half_even_def Let_def by (auto; linarith)

lemma double_zero: "double 0 = 0"
  by (simp add: double_def)

lemma double_minus: "double (- x) = - double x"
  by (simp add: double_def Let_def)

lemma binade:
  assumes "0 < a"
  shows "2 powr of_int \<lfloor>log 2 a\<rfloor> \<le> a" and "a < 2 powr of_int (\<lfloor>log 2 a\<rfloor> + 1)"
  using floor_log_eq_powr_iff[of a 2 "\<lfloor>log 2 a\<rfloor>"] assms by simp_all

lemma ulp_eq: "(2::real) powr of_int (k - 52) = 2 powr of_int k / 2 ^ 52"
proof -
  have "(2::real) powr of_int (k - 52) = 2 powr (of_int k - 52)" by simp
  also have "\<dots> = 2 powr of_int k / 2 powr 52" by (rule powr_diff)
  also have "(2::real) powr 52 = 2 ^ 52" by (simp add: powr_numeral)
  finally show ?thesis .
qed

lemma double_err: "\<bar>double x - x\<bar> \<le> \<bar>x\<bar> / 2 ^ 53"
proof (cases "x = 0")
  case True
  then show ?thesis by (simp add: double_def)
next
  case False
  define a where "a = \<bar>x\<bar>"
  define k where "k = \<lfloor>log 2 a\<rfloor>"
  define s where "s = (2::real) powr of_int (k - 52)"
  define n where "n = round_half_even (a / s)"
  have a: "0 < a" using False by (simp add: a_def)
  have s: "0 < s" by (simp add: s_def)
  have d: "double x = sgn x * of_int n * s"
    using False by (simp add: double_def Let_def a_def k_def s_def n_def)
  have x: "x = sgn x * a" by (simp add: a_def sgn_mult_abs)
  have "double x - x = sgn x * (of_int n * s - a)"
    by (subst x, subst d) (simp add: algebra_simps)
  then have "\<bar>double x - x\<bar> = \<bar>of_int n * s - a\<bar>"
    using False by (simp add: abs_mult abs_sgn_eq)
  also have "of_int n * s - a = s * (of_int n - a / s)"
    using s by (simp add: algebra_simps)
  also have "\<bar>s * (of_int n - a / s)\<bar> = s * \<bar>of_int n - a / s\<bar>"
    using s by (simp add: abs_mult)
  also have "\<dots> \<le> s * (1 / 2)"
    using s round_half_even_err[of "a / s"] unfolding n_def by (intro mult_left_mono) simp_all
  also have "s = 2 powr of_int k / 2 ^ 52" unfolding s_def by (rule ulp_eq)
  also have "2 powr of_int k / 2 ^ 52 * (1 / 2) \<le> a / 2 ^ 52 * (1 / 2)"
    using binade(1)[OF a] by (simp add: k_def divide_right_mono)
  finally show ?thesis by (simp add: a_def)
qed

lemma double_repr:
  assumes "2 ^ 52 \<le> n" and "n \<le> 2 ^ 53"
  shows "double (of_int n * 2 powr of_int e) = of_int n * 2 powr of_int e"
proof -
  define x where "x = real_of_int n * 2 powr of_int e"
  have n0: "0 < n" using assms(1) by (smt (verit) zero_less_power)
  have x0: "0 < x" using n0 by (simp add: x_def)
  have nlo: "(2::real) ^ 52 \<le> real_of_int n"
    using of_int_le_iff[of "2 ^ 52" n, where ?'a = real] assms(1) by simp
  show ?thesis
  proof (cases "n = 2 ^ 53")
    case False
    with assms have n: "n < 2 ^ 53" by simp
    have "(2::real) powr of_int (e + 52) \<le> x"
    proof -
      have "(2::real) powr of_int (e + 52) = 2 ^ 52 * 2 powr of_int e"
        by (simp add: powr_add powr_numeral)
      also have "\<dots> \<le> x" unfolding x_def using nlo
        by (intro mult_right_mono) simp_all
      finally show ?thesis .
    qed
    moreover have "x < 2 powr of_int (e + 52 + 1)"
    proof -
      have "real_of_int n < 2 ^ 53"
        using of_int_less_iff[of n "2 ^ 53", where ?'a = real] n by simp
      then have "x < 2 ^ 53 * 2 powr of_int e" unfolding x_def
        by (intro mult_strict_right_mono) simp_all
      also have "\<dots> = 2 powr of_int (e + 52 + 1)"
        by (simp add: powr_add powr_numeral)
      finally show ?thesis .
    qed
    ultimately have k: "\<lfloor>log 2 x\<rfloor> = e + 52"
      using floor_log_eq_powr_iff[of x 2 "e + 52"] x0 by simp
    have "double x = real_of_int (round_half_even (x / 2 powr of_int e)) * 2 powr of_int e"
      using x0 by (simp add: double_def Let_def k)
    also have "x / 2 powr of_int e = of_int n" by (simp add: x_def)
    finally show ?thesis by (simp add: round_half_even_int x_def)
  next
    case True
    have xe: "x = 2 powr of_int (e + 53)"
      by (simp add: x_def True powr_add powr_numeral)
    have k: "\<lfloor>log 2 x\<rfloor> = e + 53"
      using floor_log_eq_powr_iff[of x 2 "e + 53"] x0 by (simp add: xe)
    have "double x = real_of_int (round_half_even (x / 2 powr of_int (e + 1))) * 2 powr of_int (e + 1)"
      using x0 by (simp add: double_def Let_def k add.commute)
    also have "x / 2 powr of_int (e + 1) = of_int (2 ^ 52)"
      by (simp add: x_def True powr_add)
    finally show ?thesis by (simp add: round_half_even_numeral x_def True powr_add)
  qed
qed

lemma double_form:
  assumes "x \<noteq> 0"
  shows "\<exists>n e. 2 ^ 52 \<le> n \<and> n \<le> 2 ^ 53 \<and> double x = sgn x * (of_int n * 2 powr of_int e)"
proof -
  define a where "a = \<bar>x\<bar>"
  define k where "k = \<lfloor>log 2 a\<rfloor>"
  define s where "s = (2::real) powr of_int (k - 52)"
  define n where "n = round_half_even (a / s)"
  have a: "0 < a" using assms by (simp add: a_def)
  have s: "0 < s" by (simp add: s_def)
  have d: "double x = sgn x * (of_int n * s)"
    using assms by (simp add: double_def Let_def a_def k_def s_def n_def)
  have se: "s = 2 powr of_int k / 2 ^ 52" unfolding s_def by (rule ulp_eq)
  have "2 ^ 52 \<le> a / s"
    using binade(1)[OF a] by (simp add: se k_def[symmetric] field_simps)
  then have lo: "2 ^ 52 \<le> n" unfolding n_def by (intro round_half_even_mono) simp
  have "a / s \<le> 2 ^ 53"
    using binade(2)[OF a] by (simp add: se k_def[symmetric] field_simps powr_add)
  then have hi: "n \<le> 2 ^ 53" unfolding n_def by (intro round_half_even_le) simp
  from lo hi d show ?thesis unfolding s_def by blast
qed

lemma double_idem: "double (double x) = double x"
proof (cases "x = 0")
  case True
  then show ?thesis by (simp add: double_def)
next
  case False
  from double_form[OF False] obtain n e where
    n: "2 ^ 52 \<le> n" "n \<le> 2 ^ 53" and d: "double x = sgn x * (of_int n * 2 powr of_int e)" by blast
  show ?thesis
  proof (cases "0 < x")
    case True
    then show ?thesis using double_repr[OF n, of e] by (simp add: d)
  next
    case neg: False
    with False have "sgn x = - 1" by simp
    then show ?thesis using double_repr[OF n, of e] by (simp add: d double_minus)
  qed
qed

lemma double_half: "double (double x / 2) = double x / 2"
proof (cases "x = 0")
  case True
  then show ?thesis by (simp add: double_def)
next
  case False
  from double_form[OF False] obtain n e where
    n: "2 ^ 52 \<le> n" "n \<le> 2 ^ 53" and d: "double x = sgn x * (of_int n * 2 powr of_int e)" by blast
  have h: "real_of_int n * 2 powr of_int e / 2 = of_int n * 2 powr of_int (e - 1)"
    by (simp add: powr_diff)
  show ?thesis
  proof (cases "0 < x")
    case True
    then show ?thesis using double_repr[OF n, of "e - 1"] by (simp add: d h)
  next
    case neg: False
    with False have "sgn x = - 1" by simp
    then show ?thesis using double_repr[OF n, of "e - 1"] double_minus[of "of_int n * 2 powr of_int (e - 1)"]
      by (simp add: d h)
  qed
qed

lemma double_pos: "0 < x \<Longrightarrow> 0 < double x"
proof -
  assume x: "0 < x"
  have "\<bar>double x - x\<bar> \<le> x / 2 ^ 53" using double_err[of x] x by simp
  moreover have "x / 2 ^ 53 < x" using x by simp
  ultimately show ?thesis by linarith
qed

subsection \<open>Mercator tile corners\<close>

lemma circumference_pos: "0 < double (2 * double pi * 6378137)"
  by (intro double_pos mult_pos_pos) (simp_all add: double_pos)

lemma originShift_pos: "0 < originShift"
  using circumference_pos by (simp add: originShift_def)

lemma originShift_double: "double originShift = originShift"
  unfolding originShift_def by (rule double_half)

lemma originShift_Resolution: "originShift = 128 * 2 ^ z * Resolution z"
  by (simp add: originShift_def Resolution_def initialResolution_def tileSize_def)

lemma Resolution_pos: "0 < Resolution z"
  using circumference_pos by (simp add: Resolution_def initialResolution_def tileSize_def)

text \<open>The pixel coordinate that the round trip gives for the corner of tile index \<open>t\<close>.\<close>

lemma corner_pixel_error:
  assumes "0 \<le> t" and "t \<le> 2 ^ z"
  shows "\<bar>double (double (double (double (real_of_int (t * tileSize) * Resolution z) - originShift)
                         + originShift) / Resolution z) / real_of_int tileSize - real_of_int t\<bar>
         \<le> 5 * 2 ^ z / 2 ^ 53"
proof -
  define r where "r = Resolution z"
  define B where "B = (2::real) ^ z"
  define P where "P = real_of_int (t * tileSize)"
  define d where "d = originShift / 2 ^ 53"
  define g where "g = 128 * B / 2 ^ 53"
  define a where "a = double (P * r)"
  define m where "m = double (a - originShift)"
  define s where "s = double (m + originShift)"
  define p where "p = double (s / r)"
  have r: "0 < r" unfolding r_def by (rule Resolution_pos)
  have B: "1 \<le> B" unfolding B_def by simp
  have os: "originShift = 128 * B * r" unfolding B_def r_def by (rule originShift_Resolution)
  have os0: "0 < originShift" by (rule originShift_pos)
  have d: "0 < d" "1000 * d \<le> originShift" using os0 by (simp_all add: d_def)
  have g: "0 < g" "1000 * g \<le> B" using B by (simp_all add: g_def)
  have dg: "d = g * r" by (simp add: d_def g_def os)
  have t: "0 \<le> real_of_int t" "real_of_int t \<le> B"
    using assms of_int_le_iff[of t "2 ^ z", where ?'a = real] by (simp_all add: B_def)
  have P: "P = 256 * real_of_int t" by (simp add: P_def tileSize_def)
  have Pr: "0 \<le> P * r" "P * r \<le> 2 * originShift"
  proof -
    show "0 \<le> P * r" using t r by (simp add: P)
    have "P * r \<le> 256 * B * r" using t r by (simp add: P)
    then show "P * r \<le> 2 * originShift" by (simp add: os)
  qed
  have e1: "\<bar>a - P * r\<bar> \<le> 2 * d"
  proof -
    have "\<bar>a - P * r\<bar> \<le> \<bar>P * r\<bar> / 2 ^ 53" unfolding a_def by (rule double_err)
    also have "\<dots> \<le> 2 * originShift / 2 ^ 53" using Pr by (simp add: divide_right_mono)
    finally show ?thesis by (simp add: d_def)
  qed
  have e2: "\<bar>m - (a - originShift)\<bar> \<le> 2 * d"
  proof -
    have "\<bar>a - originShift\<bar> \<le> 2 * originShift" using e1 Pr d by linarith
    then have "\<bar>a - originShift\<bar> / 2 ^ 53 \<le> 2 * originShift / 2 ^ 53" by (simp add: divide_right_mono)
    moreover have "\<bar>m - (a - originShift)\<bar> \<le> \<bar>a - originShift\<bar> / 2 ^ 53"
      unfolding m_def by (rule double_err)
    ultimately show ?thesis by (simp add: d_def)
  qed
  have e3: "\<bar>s - (m + originShift)\<bar> \<le> 3 * d"
  proof -
    have "\<bar>m + originShift\<bar> \<le> 3 * originShift" using e1 e2 Pr d by linarith
    then have "\<bar>m + originShift\<bar> / 2 ^ 53 \<le> 3 * originShift / 2 ^ 53" by (simp add: divide_right_mono)
    moreover have "\<bar>s - (m + originShift)\<bar> \<le> \<bar>m + originShift\<bar> / 2 ^ 53"
      unfolding s_def by (rule double_err)
    ultimately show ?thesis by (simp add: d_def)
  qed
  have e4: "\<bar>s - P * r\<bar> \<le> 7 * d" using e1 e2 e3 by linarith
  have e5: "\<bar>s / r - P\<bar> \<le> 7 * g"
  proof -
    have "s / r - P = (s - P * r) / r" using r by (simp add: field_simps)
    then have "\<bar>s / r - P\<bar> = \<bar>s - P * r\<bar> / r" using r by (simp add: abs_divide)
    also have "\<dots> \<le> 7 * d / r" using e4 r by (simp add: divide_right_mono)
    also have "\<dots> = 7 * g" using r by (simp add: dg)
    finally show ?thesis .
  qed
  have e6: "\<bar>p - s / r\<bar> \<le> 3 * g"
  proof -
    have "\<bar>s / r\<bar> \<le> 256 * B + 7 * g" using e5 t P by linarith
    also have "\<dots> \<le> 384 * B" using g B by linarith
    finally have "\<bar>s / r\<bar> / 2 ^ 53 \<le> 384 * B / 2 ^ 53" by (simp add: divide_right_mono)
    moreover have "\<bar>p - s / r\<bar> \<le> \<bar>s / r\<bar> / 2 ^ 53"
      unfolding p_def by (rule double_err)
    ultimately show ?thesis by (simp add: g_def)
  qed
  have "\<bar>p - P\<bar> \<le> 10 * g" using e5 e6 by linarith
  then have "\<bar>p / 256 - real_of_int t\<bar> \<le> 10 * g / 256" by (simp add: P abs_if split: if_splits)
  also have "\<dots> = 5 * B / 2 ^ 53" by (simp add: g_def)
  finally show ?thesis
    by (simp add: p_def s_def m_def a_def P_def r_def B_def tileSize_def)
qed

lemma corner_tile_index:
  assumes "z \<le> 31" and "0 \<le> t" and "t \<le> 2 ^ z"
  shows "\<lceil>double (double (double (double (real_of_int (t * tileSize) * Resolution z) - originShift)
                         + originShift) / Resolution z) / real_of_int tileSize\<rceil> - 1 \<in> {t - 1, t}"
proof -
  define q where "q = double (double (double (double (real_of_int (t * tileSize) * Resolution z) - originShift)
                         + originShift) / Resolution z) / real_of_int tileSize"
  have "(2::real) ^ z \<le> 2 ^ 31" using assms(1) by (intro power_increasing) simp_all
  then have "5 * (2::real) ^ z / 2 ^ 53 < 1" by simp
  with corner_pixel_error[OF assms(2,3)] have e: "\<bar>q - real_of_int t\<bar> < 1" unfolding q_def by linarith
  have "t - 1 < \<lceil>q\<rceil>" using e by (simp add: less_ceiling_iff)
  moreover have "\<lceil>q\<rceil> \<le> t + 1" using e by (simp add: ceiling_le_iff)
  ultimately show ?thesis unfolding q_def[symmetric] by auto
qed

lemma edge_tile_index:
  "\<lceil>double (double (double (double (real_of_int (0 * tileSize) * Resolution z) - originShift)
                         + originShift) / Resolution z) / real_of_int tileSize\<rceil> - 1 = - 1"
  by (simp add: double_zero double_minus originShift_double)

lemma Resolution_Suc: "Resolution (Suc z) = Resolution z / 2"
  by (simp add: Resolution_def)

lemma circumference_bound: "double (2 * double pi * 6378137) < 51200000"
proof -
  have "\<bar>double pi - pi\<bar> \<le> \<bar>pi\<bar> / 9007199254740992" using double_err[of pi] by simp
  with pi_less_4 pi_gt_zero have dp: "double pi < 4001 / 1000" by linarith
  have dp0: "0 < double pi" by (rule double_pos) simp
  define Y where "Y = 2 * double pi * 6378137"
  have Y: "0 < Y" "Y < 51100000" using dp dp0 by (simp_all add: Y_def)
  have "\<bar>double Y - Y\<bar> \<le> \<bar>Y\<bar> / 9007199254740992" using double_err[of Y] by simp
  with Y have "double Y < 51200000" by linarith
  then show ?thesis by (simp add: Y_def)
qed

lemma Resolution_antimono: "i \<le> j \<Longrightarrow> Resolution j \<le> Resolution i"
proof -
  assume "i \<le> j"
  have "0 < initialResolution" using circumference_pos by (simp add: initialResolution_def tileSize_def)
  moreover have "(2::real) ^ i \<le> 2 ^ j" using \<open>i \<le> j\<close> by simp
  ultimately show ?thesis
    unfolding Resolution_def by (simp add: frac_le)
qed

lemma Resolution_31_small: "Resolution 31 < 1"
  using circumference_bound by (simp add: Resolution_def initialResolution_def tileSize_def)

lemma Resolution_0_bound: "Resolution 0 < 200000"
  using circumference_bound by (simp add: Resolution_def initialResolution_def tileSize_def)

text \<open>
  C4 (as amended). For a tile \<open>(z, tx, ty)\<close> with \<open>z\<close> below \<open>MAXZOOMLEVEL\<close> and indices from 0
  to \<open>2^z - 1\<close>, the minimum corner of \<open>TileBounds tx ty z\<close>, converted by \<open>MetersToPixels\<close>
  at zoom \<open>z\<close> and then by \<open>PixelsToTile\<close>, gives in each coordinate the index of the tile
  or the index below it: the corner lies on the lower edge of the tile, which
  \<open>PixelsToTile\<close> (ceiling minus one) assigns to the neighbour below, and the rounding of
  the four floating-point operations in between can move it into the tile. For the index
  0 all four operations are exact, and the result is \<open>-1\<close>.
\<close>

theorem tile_corner_roundtrip:
  assumes "z < MAXZOOMLEVEL" and "0 \<le> tx" and "tx < 2 ^ z" and "0 \<le> ty" and "ty < 2 ^ z"
  shows "case TileBounds tx ty z of (minx, miny, maxx, maxy) \<Rightarrow>
           case MetersToPixels minx miny z of (px, py) \<Rightarrow>
           case PixelsToTile px py of (tx', ty') \<Rightarrow>
               (tx' = tx - 1 \<or> tx' = tx) \<and> (ty' = ty - 1 \<or> ty' = ty)
             \<and> (tx = 0 \<longrightarrow> tx' = - 1) \<and> (ty = 0 \<longrightarrow> ty' = - 1)"
proof -
  have z: "z \<le> 31" using assms(1) by (simp add: MAXZOOMLEVEL_def)
  from corner_tile_index[OF z assms(2)] assms(3)
  have x: "\<lceil>double (double (double (double (real_of_int (tx * tileSize) * Resolution z) - originShift)
                         + originShift) / Resolution z) / real_of_int tileSize\<rceil> - 1 \<in> {tx - 1, tx}"
    by simp
  from corner_tile_index[OF z assms(4)] assms(5)
  have y: "\<lceil>double (double (double (double (real_of_int (ty * tileSize) * Resolution z) - originShift)
                         + originShift) / Resolution z) / real_of_int tileSize\<rceil> - 1 \<in> {ty - 1, ty}"
    by simp
  have x0: "tx = 0 \<longrightarrow>
      \<lceil>double (double (double (double (real_of_int (tx * tileSize) * Resolution z) - originShift)
                         + originShift) / Resolution z) / real_of_int tileSize\<rceil> - 1 = - 1"
    using edge_tile_index[of z] by simp
  have y0: "ty = 0 \<longrightarrow>
      \<lceil>double (double (double (double (real_of_int (ty * tileSize) * Resolution z) - originShift)
                         + originShift) / Resolution z) / real_of_int tileSize\<rceil> - 1 = - 1"
    using edge_tile_index[of z] by simp
  from x y x0 y0 show ?thesis
    unfolding TileBounds_def PixelsToMeters_def MetersToPixels_def PixelsToTile_def Let_def prod.case
    by blast
qed

theorem tile_corner_roundtrip_witness:
  "(3::nat) < MAXZOOMLEVEL \<and> (0::int) \<le> 1 \<and> (1::int) < 2 ^ 3 \<and> (0::int) \<le> 0 \<and> (0::int) < 2 ^ 3
   \<and> (case TileBounds 1 0 3 of (minx, miny, maxx, maxy) \<Rightarrow>
         case MetersToPixels minx miny 3 of (px, py) \<Rightarrow>
         case PixelsToTile px py of (tx', ty') \<Rightarrow> (tx' = 0 \<or> tx' = 1) \<and> ty' = - 1)"
  using tile_corner_roundtrip [of 3 1 0]
  by (simp add: MAXZOOMLEVEL_def split: prod.splits)

text \<open>
  C4 as stated fails at the in-range tile \<open>(z, tx, ty) = (0, 0, 0)\<close>: the minimum corner
  is mapped to \<open>(-1, -1)\<close>, not to \<open>(0, 0)\<close>.
\<close>

theorem min_corner_counterexample:
  "(case TileBounds 0 0 0 of (minx, miny, maxx, maxy) \<Rightarrow>
      case MetersToPixels minx miny 0 of (px, py) \<Rightarrow> PixelsToTile px py) = (-1, -1)
   \<and> (case TileBounds 0 0 0 of (minx, miny, maxx, maxy) \<Rightarrow>
      case MetersToPixels minx miny 0 of (px, py) \<Rightarrow> PixelsToTile px py) \<noteq> (0, 0)"
  by (simp add: TileBounds_def PixelsToMeters_def MetersToPixels_def PixelsToTile_def Let_def
      double_zero double_minus originShift_double)

subsection \<open>The query-to-tile mapper\<close>

lemma py_int_nonneg: "0 \<le> x \<Longrightarrow> 0 \<le> py_int x"
  by (simp add: py_int_def)

lemma py_int_le: "0 \<le> x \<Longrightarrow> x \<le> real_of_int k \<Longrightarrow> py_int x \<le> k"
  by (simp add: py_int_def floor_le_iff) 

lemma py_int_less_Suc: "x < real_of_int k + 1 \<Longrightarrow> 0 \<le> k \<Longrightarrow> py_int x \<le> k"
proof (cases "0 \<le> x")
  case True
  assume "x < real_of_int k + 1"
  then have "\<lfloor>x\<rfloor> \<le> k" by linarith
  with True show ?thesis by (simp add: py_int_def)
next
  case False
  assume "0 \<le> k"
  from False have "\<lceil>x\<rceil> \<le> 0" by (simp add: ceiling_le_iff)
  with \<open>0 \<le> k\<close> have "\<lceil>x\<rceil> \<le> k" by linarith
  with False show ?thesis by (simp only: py_int_def if_False)
qed

lemma py_int_of_int: "py_int (real_of_int k) = k"
  by (simp add: py_int_def)

lemma py_int_neg:
  assumes "py_int x < 0"
  shows "x < 0" and "py_int x = \<lceil>x\<rceil>"
proof -
  show "x < 0"
  proof (rule ccontr)
    assume "\<not> x < 0"
    then have "0 \<le> py_int x" by (simp add: py_int_nonneg)
    with assms show False by simp
  qed
  then show "py_int x = \<lceil>x\<rceil>" by (simp add: py_int_def)
qed

lemma clamp_low_ok:
  assumes Q: "0 < Q" and s: "0 \<le> s" and shift: "r < 0 \<Longrightarrow> - r \<le> s"
  shows "\<exists>r' s' wx ws'. clamp_low r s Q = Inr (r', s', wx, ws')
           \<and> 0 \<le> r' \<and> (r' = r \<or> r' = 0) \<and> 0 \<le> s' \<and> 0 \<le> wx \<and> 0 \<le> ws' \<and> wx + ws' \<le> Q"
proof (cases "r < 0")
  case False
  with Q s show ?thesis by (simp add: clamp_low_def)
next
  case True
  from shift[OF True] True have spos: "0 < s" and le: "\<bar>r\<bar> \<le> s" by simp_all
  define f where "f = real_of_int \<bar>r\<bar> / real_of_int s"
  have f0: "0 \<le> f" unfolding f_def using spos by simp
  have f1: "f \<le> 1" unfolding f_def using spos le by simp
  have sf: "real_of_int s * f = real_of_int \<bar>r\<bar>" unfolding f_def using spos by simp
  have wx0: "0 \<le> py_int (real_of_int Q * f)"
    using Q f0 by (intro py_int_nonneg) simp
  have "real_of_int Q * f \<le> real_of_int Q * 1"
    using Q f1 by (intro mult_left_mono) simp_all
  then have wxQ: "py_int (real_of_int Q * f) \<le> Q"
    using Q f0 by (intro py_int_le) simp_all
  have eq: "clamp_low r s Q =
      Inr (0, s - py_int (real_of_int s * f), py_int (real_of_int Q * f), Q - py_int (real_of_int Q * f))"
    using True spos by (simp add: clamp_low_def Let_def f_def)
  show ?thesis
    unfolding eq sf py_int_of_int using wx0 wxQ le by simp
qed

lemma clamp_high_ok:
  assumes r: "0 \<le> r" and rn: "r \<le> n" and s: "0 \<le> s" and ws: "0 \<le> ws"
  shows "\<exists>s' ws'. clamp_high r s ws n = Inr (s', ws') \<and> r + s' \<le> n \<and> ws' \<le> ws"
proof (cases "r + s > n")
  case False
  then show ?thesis by (simp add: clamp_high_def)
next
  case True
  with rn have spos: "0 < s" by simp
  define f where "f = real_of_int (n - r) / real_of_int s"
  have f0: "0 \<le> f" unfolding f_def using spos rn by simp
  have f1: "f \<le> 1" unfolding f_def using spos True by simp
  have "real_of_int ws * f \<le> real_of_int ws * 1"
    using ws f1 by (intro mult_left_mono) simp_all
  then have le: "py_int (real_of_int ws * f) \<le> ws"
    using ws f0 by (intro py_int_le) simp_all
  have eq: "clamp_high r s ws n = Inr (n - r, py_int (real_of_int ws * f))"
    using True spos by (simp add: clamp_high_def Let_def f_def)
  show ?thesis unfolding eq using le by simp
qed

lemma clamp_window_bounds:
  fixes a w :: real
  assumes n: "0 \<le> n" and Q: "0 < Q" and w: "0 < w" and an: "a \<le> real_of_int n" and aw: "0 \<le> a + w"
  shows "\<exists>rx rxsize wx wxsize.
           clamp_window (py_int (a + 0.001)) (py_int (w + 0.5)) Q n = Inr (rx, rxsize, wx, wxsize)
         \<and> 0 \<le> rx \<and> rx + rxsize \<le> n \<and> 0 \<le> wx \<and> wx + wxsize \<le> Q"
proof -
  define r where "r = py_int (a + 0.001)"
  define s where "s = py_int (w + 0.5)"
  have s_floor: "s = \<lfloor>w + 0.5\<rfloor>" unfolding s_def using w by (simp add: py_int_def)
  have s0: "0 \<le> s" unfolding s_def using w by (intro py_int_nonneg) simp
  have r_le: "r \<le> n" unfolding r_def using an n by (intro py_int_less_Suc) simp_all
  have shift: "- r \<le> s" if "r < 0"
  proof -
    from py_int_neg[OF that[unfolded r_def]] have neg: "a + 0.001 < 0" and rc: "r = \<lceil>a + 0.001\<rceil>"
      by (simp_all add: r_def)
    have "- r = \<lfloor>- (a + 0.001)\<rfloor>" unfolding rc by (simp add: ceiling_def)
    also have "\<dots> \<le> \<lfloor>w + 0.5\<rfloor>" using aw by (intro floor_mono) simp
    finally show ?thesis by (simp add: s_floor)
  qed
  from clamp_low_ok[OF Q s0 shift] obtain r' s' wx ws' where
    low: "clamp_low r s Q = Inr (r', s', wx, ws')" "0 \<le> r'" "r' = r \<or> r' = 0" "0 \<le> s'"
      "0 \<le> wx" "0 \<le> ws'" "wx + ws' \<le> Q"
    by blast
  have r'n: "r' \<le> n" using low(3) r_le n by auto
  from clamp_high_ok[OF low(2) r'n low(4) low(6)] obtain s'' ws'' where
    high: "clamp_high r' s' ws' n = Inr (s'', ws'')" "r' + s'' \<le> n" "ws'' \<le> ws'"
    by blast
  have "clamp_window r s Q n = Inr (r', s'', wx, ws'')"
    by (simp add: clamp_window_def low(1) high(1))
  with low high show ?thesis unfolding r_def s_def by auto
qed

text \<open>
  C2. For a raster of width \<open>W\<close> and height \<open>H\<close> whose geotransform has a positive x pixel
  size, a negative y pixel size and no rotation, a query rectangle that meets the raster
  and a query size \<open>Q > 0\<close>, \<open>geo_query\<close> returns (it does not raise), and the returned
  windows satisfy \<open>0 \<le> rx\<close>, \<open>rx + rxsize \<le> W\<close>, \<open>0 \<le> ry\<close>, \<open>ry + rysize \<le> H\<close>,
  \<open>0 \<le> wx\<close>, \<open>wx + wxsize \<le> Q\<close>, \<open>0 \<le> wy\<close> and \<open>wy + wysize \<le> Q\<close>.
\<close>

theorem geo_query_windows_in_bounds:
  assumes gt: "GetGeoTransform ds = (g0, g1, 0, g3, 0, g5)" and g1: "0 < g1" and g5: "g5 < 0"
    and W: "0 < RasterXSize ds" and H: "0 < RasterYSize ds" and Q: "0 < Q"
    and rect: "ulx < lrx" "lry < uly"
    and meet: "ulx \<le> g0 + real_of_int (RasterXSize ds) * g1" "g0 \<le> lrx"
              "lry \<le> g3" "g3 + real_of_int (RasterYSize ds) * g5 \<le> uly"
  shows "\<exists>rx ry rxsize rysize wx wy wxsize wysize.
           geo_query ds ulx uly lrx lry Q = Inr ((rx, ry, rxsize, rysize), (wx, wy, wxsize, wysize))
         \<and> 0 \<le> rx \<and> rx + rxsize \<le> RasterXSize ds
         \<and> 0 \<le> ry \<and> ry + rysize \<le> RasterYSize ds
         \<and> 0 \<le> wx \<and> wx + wxsize \<le> Q
         \<and> 0 \<le> wy \<and> wy + wysize \<le> Q"
proof -
  have x1: "0 < (lrx - ulx) / g1" using rect(1) g1 by simp
  have x2: "(ulx - g0) / g1 \<le> real_of_int (RasterXSize ds)"
    using meet(1) g1 by (simp add: field_simps)
  have x3: "0 \<le> (ulx - g0) / g1 + (lrx - ulx) / g1"
    using meet(2) g1 by (simp add: field_simps)
  have y1: "0 < (lry - uly) / g5" using rect(2) g5 by (simp add: field_simps)
  have y2: "(uly - g3) / g5 \<le> real_of_int (RasterYSize ds)"
    using meet(4) g5 by (simp add: field_simps)
  have y3: "0 \<le> (uly - g3) / g5 + (lry - uly) / g5"
    using meet(3) g5 by (simp add: field_simps)
  from clamp_window_bounds[OF _ Q x1 x2 x3] W obtain rx rxsize wx wxsize where
    x: "clamp_window (py_int ((ulx - g0) / g1 + 0.001)) (py_int ((lrx - ulx) / g1 + 0.5)) Q (RasterXSize ds)
          = Inr (rx, rxsize, wx, wxsize)"
       "0 \<le> rx" "rx + rxsize \<le> RasterXSize ds" "0 \<le> wx" "wx + wxsize \<le> Q"
    by force
  from clamp_window_bounds[OF _ Q y1 y2 y3] H obtain ry rysize wy wysize where
    y: "clamp_window (py_int ((uly - g3) / g5 + 0.001)) (py_int ((lry - uly) / g5 + 0.5)) Q (RasterYSize ds)
          = Inr (ry, rysize, wy, wysize)"
       "0 \<le> ry" "ry + rysize \<le> RasterYSize ds" "0 \<le> wy" "wy + wysize \<le> Q"
    by force
  have "geo_query ds ulx uly lrx lry Q = Inr ((rx, ry, rxsize, rysize), (wx, wy, wxsize, wysize))"
    using g1 g5 Q x(1) y(1) by (simp add: geo_query_def gt Let_def)
  with x y show ?thesis by blast
qed

theorem geo_query_windows_in_bounds_witness:
  "\<exists>rx ry rxsize rysize wx wy wxsize wysize.
     geo_query \<lparr>RasterXSize = 100, RasterYSize = 100, GetGeoTransform = (0, 1, 0, 100, 0, - 1)\<rparr>
       (- 50) 150 50 50 256 = Inr ((rx, ry, rxsize, rysize), (wx, wy, wxsize, wysize))
     \<and> 0 \<le> rx \<and> rx + rxsize \<le> 100 \<and> 0 \<le> ry \<and> ry + rysize \<le> 100
     \<and> 0 \<le> wx \<and> wx + wxsize \<le> 256 \<and> 0 \<le> wy \<and> wy + wysize \<le> 256"
  using geo_query_windows_in_bounds
    [of "\<lparr>RasterXSize = 100, RasterYSize = 100, GetGeoTransform = (0, 1, 0, 100, 0, - 1)\<rparr>"
        0 1 100 "- 1" 256 "- 50" 50 50 150]
  by simp

subsection \<open>Zoom for a pixel size\<close>

lemma loop_None:
  "ZoomForPixelSize_loop p xs = None \<longleftrightarrow> (\<forall>i \<in> set xs. p \<le> Resolution i)"
  by (induction xs) auto

lemma loop_upt_Some:
  assumes "ZoomForPixelSize_loop p [k..<n] = Some z"
  shows "\<exists>i. k \<le> i \<and> i < n \<and> p > Resolution i \<and> (\<forall>j. k \<le> j \<and> j < i \<longrightarrow> p \<le> Resolution j)
           \<and> z = i - 1"
  using assms
proof (induction "n - k" arbitrary: k)
  case 0
  then show ?case by simp
next
  case (Suc d)
  then have kn: "k < n" by simp
  then have upt: "[k..<n] = k # [Suc k..<n]" by (simp add: upt_conv_Cons)
  show ?case
  proof (cases "p > Resolution k")
    case True
    with Suc.prems upt have "z = k - 1" by (auto split: if_splits)
    with True kn show ?thesis by (intro exI[of _ k]) auto
  next
    case False
    with Suc.prems upt have rest: "ZoomForPixelSize_loop p [Suc k..<n] = Some z" by simp
    from Suc.hyps(2) have "d = n - Suc k" by simp
    from Suc.hyps(1)[OF this rest] obtain i where
      i: "Suc k \<le> i" "i < n" "p > Resolution i" "\<forall>j. Suc k \<le> j \<and> j < i \<longrightarrow> p \<le> Resolution j" "z = i - 1"
      by blast
    have "\<forall>j. k \<le> j \<and> j < i \<longrightarrow> p \<le> Resolution j"
    proof (intro allI impI)
      fix j assume "k \<le> j \<and> j < i"
      then show "p \<le> Resolution j" using i(4) False by (cases "j = k") auto
    qed
    with i show ?thesis by (intro exI[of _ i]) auto
  qed
qed

text \<open>
  C5 (as amended). For every pixel size \<open>p\<close> above \<open>Resolution 31\<close>, \<open>ZoomForPixelSize p\<close>
  returns a zoom \<open>z\<close> in \<open>[0, 30]\<close>. When \<open>p \<le> Resolution 0\<close>, \<open>z\<close> is the largest zoom with
  \<open>Resolution z \<ge> p\<close>, so that \<open>Resolution z \<ge> p > Resolution (z + 1)\<close>; when \<open>p\<close> exceeds
  \<open>Resolution 0\<close> it is 0. This \<open>z\<close> is the \<open>tmaxz\<close> that \<open>open_input\<close> sets for the mercator
  profile when \<^verbatim>\<open>-z\<close> is not given and the pixel size of the raster is \<open>p\<close>.
\<close>

theorem ZoomForPixelSize_largest:
  assumes "Resolution 31 < p"
  shows "\<exists>z. ZoomForPixelSize p = Some z \<and> z \<le> 30
           \<and> (if p \<le> Resolution 0
               then Resolution z \<ge> p \<and> p > Resolution (z + 1)
                    \<and> (\<forall>z'. Resolution z' \<ge> p \<longrightarrow> z' \<le> z)
               else z = 0)
           \<and> (\<forall>self g0 g2 g3 g4 g5.
                 profile self = ''mercator'' \<and> tmaxz self = None
                 \<and> GetGeoTransform (out_ds self) = (g0, p, g2, g3, g4, g5)
                 \<longrightarrow> tmaxz (open_input self) = Some z)"
proof -
  have "ZoomForPixelSize p \<noteq> None"
    using assms by (auto simp: ZoomForPixelSize_def MAXZOOMLEVEL_def loop_None intro!: bexI[of _ 31])
  then obtain z where z: "ZoomForPixelSize p = Some z" by auto
  from loop_upt_Some[OF z[unfolded ZoomForPixelSize_def]] obtain i where
    i: "i < MAXZOOMLEVEL" "p > Resolution i" "\<forall>j. j < i \<longrightarrow> p \<le> Resolution j" "z = i - 1"
    by auto
  have z30: "z \<le> 30" using i(1,4) by (simp add: MAXZOOMLEVEL_def)
  have dflt: "\<forall>self g0 g2 g3 g4 g5.
                 profile self = ''mercator'' \<and> tmaxz self = None
                 \<and> GetGeoTransform (out_ds self) = (g0, p, g2, g3, g4, g5)
                 \<longrightarrow> tmaxz (open_input self) = Some z"
    by (simp add: open_input_def Let_def z)
  show ?thesis
  proof (cases "p \<le> Resolution 0")
    case True
    with i(2) have "i \<noteq> 0" by (cases "i = 0") auto
    then have iz: "i = z + 1" using i(4) by simp
    have a: "Resolution z \<ge> p" using i(3) iz by simp
    have b: "p > Resolution (z + 1)" using i(2) iz by simp
    have c: "\<forall>z'. Resolution z' \<ge> p \<longrightarrow> z' \<le> z"
    proof (intro allI impI)
      fix z' assume le: "Resolution z' \<ge> p"
      show "z' \<le> z"
      proof (rule ccontr)
        assume "\<not> z' \<le> z"
        then have "z + 1 \<le> z'" by simp
        from Resolution_antimono[OF this] b le show False by simp
      qed
    qed
    from z z30 True a b c dflt show ?thesis by simp
  next
    case False
    have "i = 0"
    proof (rule ccontr)
      assume "i \<noteq> 0"
      then have "0 < i" by simp
      with i(3) False show False by blast
    qed
    with z z30 False i(4) dflt show ?thesis by simp
  qed
qed

theorem ZoomForPixelSize_largest_witness:
  "Resolution 31 < 1
   \<and> (\<exists>z. ZoomForPixelSize 1 = Some z \<and> z \<le> 30
           \<and> (if 1 \<le> Resolution 0
               then Resolution z \<ge> 1 \<and> 1 > Resolution (z + 1)
                    \<and> (\<forall>z'. Resolution z' \<ge> 1 \<longrightarrow> z' \<le> z)
               else z = 0))"
  using ZoomForPixelSize_largest [of 1] Resolution_31_small by blast

text \<open>
  C5 as stated fails at the pixel size \<open>p = 200000\<close>, which exceeds \<open>Resolution 0\<close>: the
  zoom returned is 0, and \<open>Resolution 0 \<ge> p\<close> does not hold.
\<close>

theorem ZoomForPixelSize_clamped_counterexample:
  "ZoomForPixelSize 200000 = Some 0 \<and> \<not> (Resolution 0 \<ge> 200000)"
  using Resolution_0_bound
  by (simp add: ZoomForPixelSize_def MAXZOOMLEVEL_def upt_conv_Cons)

subsection \<open>Round-robin partition of the tiles\<close>

lemma set_tile_order:
  "set (tile_order (tminx, tminy, tmaxx, tmaxy))
     = {(tx, ty). tminx \<le> tx \<and> tx \<le> tmaxx \<and> tminy \<le> ty \<and> ty \<le> tmaxy}"
  by (auto simp: tile_order_def)

lemma distinct_rows:
  "distinct ys \<Longrightarrow> distinct xs \<Longrightarrow> distinct (concat (map (\<lambda>ty. map (\<lambda>tx. (tx, ty)) xs) ys))"
proof (induction ys)
  case Nil
  then show ?case by simp
next
  case (Cons y ys)
  have "distinct (map (\<lambda>tx. (tx, y)) xs)"
    using Cons.prems(2) by (simp add: distinct_map inj_on_def)
  moreover have "set (map (\<lambda>tx. (tx, y)) xs) \<inter> set (concat (map (\<lambda>ty. map (\<lambda>tx. (tx, ty)) xs) ys)) = {}"
    using Cons.prems(1) by auto
  ultimately show ?case using Cons by simp
qed

lemma distinct_tile_order: "distinct (tile_order r)"
  by (cases r) (simp add: tile_order_def distinct_rows)

lemma claimed_member:
  "t \<in> set (claimed N w ti ts) \<longleftrightarrow> (\<exists>k < length ts. ts ! k = t \<and> (ti + int k) mod N = w)"
proof (induction ts arbitrary: ti)
  case Nil
  then show ?case by simp
next
  case (Cons u rest)
  have rest: "t \<in> set (claimed N w (ti + 1) rest)
      \<longleftrightarrow> (\<exists>k < length rest. rest ! k = t \<and> (ti + int (Suc k)) mod N = w)"
    by (simp add: Cons.IH add.assoc)
  have split: "(\<exists>k < length (u # rest). (u # rest) ! k = t \<and> (ti + int k) mod N = w)
      \<longleftrightarrow> (u = t \<and> ti mod N = w) \<or> (\<exists>k < length rest. rest ! k = t \<and> (ti + int (Suc k)) mod N = w)"
    (is "?L \<longleftrightarrow> ?A \<or> ?B")
  proof
    assume ?L
    then obtain k where k: "k < length (u # rest)" "(u # rest) ! k = t" "(ti + int k) mod N = w"
      by blast
    show "?A \<or> ?B"
    proof (cases k)
      case 0
      with k show ?thesis by simp
    next
      case (Suc j)
      with k have "j < length rest \<and> rest ! j = t \<and> (ti + int (Suc j)) mod N = w" by simp
      then show ?thesis by blast
    qed
  next
    assume "?A \<or> ?B"
    then show ?L
    proof
      assume ?A
      then have "0 < length (u # rest) \<and> (u # rest) ! 0 = t \<and> (ti + int 0) mod N = w" by simp
      then show ?L by blast
    next
      assume ?B
      then obtain j where "j < length rest" "rest ! j = t" "(ti + int (Suc j)) mod N = w" by blast
      then have "Suc j < length (u # rest) \<and> (u # rest) ! Suc j = t \<and> (ti + int (Suc j)) mod N = w"
        by simp
      then show ?L by blast
    qed
  qed
  show ?case unfolding split using rest by (auto simp: Let_def)
qed

lemma claimed_subset: "set (claimed N w ti ts) \<subseteq> set ts"
  by (induction ts arbitrary: ti) (auto simp: Let_def)

lemma distinct_claimed: "distinct ts \<Longrightarrow> distinct (claimed N w ti ts)"
proof (induction ts arbitrary: ti)
  case Nil
  then show ?case by simp
next
  case (Cons u rest)
  from claimed_subset[of N w "ti + 1" rest] Cons.prems
  have "u \<notin> set (claimed N w (ti + 1) rest)" by auto
  with Cons show ?case by (simp add: Let_def)
qed

lemma count_list_distinct: "distinct xs \<Longrightarrow> x \<in> set xs \<Longrightarrow> count_list xs x = 1"
  by (induction xs) auto

lemma tile_loop_claimed:
  "procs \<noteq> 0 \<Longrightarrow> tile_loop body procs cpu ti ts w = run_tiles body (claimed procs cpu ti ts) w"
proof (induction ts arbitrary: ti w)
  case Nil
  then show ?case by simp
next
  case (Cons t rest)
  obtain tx ty where t: "t = (tx, ty)" by (cases t)
  show ?case
    unfolding t using Cons.prems Cons.IH[OF Cons.prems]
    by (auto simp: Let_def split: prod.splits option.splits)
qed

text \<open>
  C3. For a tile range \<open>(tminx, tminy, tmaxx, tmaxy)\<close> and \<open>N \<ge> 1\<close> workers, every tile
  \<open>(tx, ty)\<close> of the range is claimed by exactly one worker id, which lies in \<open>[0, N)\<close>,
  and exactly once; no worker claims a tile outside the range; and the loop of either
  phase runs its body on exactly the claimed tiles, in the canonical order.
\<close>

theorem round_robin_partition:
  assumes N: "1 \<le> N"
    and inside: "tminx \<le> tx" "tx \<le> tmaxx" "tminy \<le> ty" "ty \<le> tmaxy"
  shows "\<exists>w. 0 \<le> w \<and> w < N
           \<and> count_list (claimed N w 0 (tile_order (tminx, tminy, tmaxx, tmaxy))) (tx, ty) = 1
           \<and> (\<forall>w'. w' \<noteq> w \<longrightarrow> (tx, ty) \<notin> set (claimed N w' 0 (tile_order (tminx, tminy, tmaxx, tmaxy))))
           \<and> (\<forall>w'. set (claimed N w' 0 (tile_order (tminx, tminy, tmaxx, tmaxy)))
                     \<subseteq> {(x, y). tminx \<le> x \<and> x \<le> tmaxx \<and> tminy \<le> y \<and> y \<le> tmaxy})
           \<and> (\<forall>body cpu st. tile_loop body N cpu 0 (tile_order (tminx, tminy, tmaxx, tmaxy)) st
                     = run_tiles body (claimed N cpu 0 (tile_order (tminx, tminy, tmaxx, tmaxy))) st)"
proof -
  define ts where "ts = tile_order (tminx, tminy, tmaxx, tmaxy)"
  have dist: "distinct ts" unfolding ts_def by (rule distinct_tile_order)
  have "(tx, ty) \<in> set ts" unfolding ts_def set_tile_order using inside by simp
  then obtain k where k: "k < length ts" "ts ! k = (tx, ty)" by (auto simp: in_set_conv_nth)
  define w where "w = int k mod N"
  have w: "0 \<le> w" "w < N" unfolding w_def using N by simp_all
  have mem: "(tx, ty) \<in> set (claimed N w 0 ts)"
    unfolding claimed_member using k by (auto simp: w_def)
  have one: "count_list (claimed N w 0 ts) (tx, ty) = 1"
    using count_list_distinct[OF distinct_claimed[OF dist] mem] .
  have others: "\<forall>w'. w' \<noteq> w \<longrightarrow> (tx, ty) \<notin> set (claimed N w' 0 ts)"
  proof (intro allI impI notI)
    fix w' assume ne: "w' \<noteq> w" and "(tx, ty) \<in> set (claimed N w' 0 ts)"
    then obtain j where j: "j < length ts" "ts ! j = (tx, ty)" "int j mod N = w'"
      unfolding claimed_member by auto
    from j(1,2) k have "ts ! j = ts ! k" by simp
    with j(1) k(1) dist have "j = k" by (simp add: nth_eq_iff_index_eq)
    with j(3) ne show False by (simp add: w_def)
  qed
  have sub: "\<forall>w'. set (claimed N w' 0 ts) \<subseteq> {(x, y). tminx \<le> x \<and> x \<le> tmaxx \<and> tminy \<le> y \<and> y \<le> tmaxy}"
    using claimed_subset[of N _ 0 ts] unfolding ts_def set_tile_order by blast
  have loop: "\<forall>body cpu st. tile_loop body N cpu 0 ts st = run_tiles body (claimed N cpu 0 ts) st"
    using N by (simp add: tile_loop_claimed)
  from w one others sub loop show ?thesis unfolding ts_def by blast
qed

theorem round_robin_partition_witness:
  "claimed 2 0 0 (tile_order (0, 0, 1, 1)) = [(0, 1), (0, 0)]
   \<and> claimed 2 1 0 (tile_order (0, 0, 1, 1)) = [(1, 1), (1, 0)]
   \<and> (\<exists>w. 0 \<le> w \<and> w < (2::int)
           \<and> count_list (claimed 2 w 0 (tile_order (0, 0, 1, 1))) (1, 0) = 1
           \<and> (\<forall>w'. w' \<noteq> w \<longrightarrow> (1, 0) \<notin> set (claimed 2 w' 0 (tile_order (0, 0, 1, 1)))))"
  using round_robin_partition [of 2 0 1 1 0 0 1]
  by (simp add: tile_order_def upto.simps)

subsection \<open>Tile phases only insert tile rows\<close>

lemma tiles_only_refl: "tiles_only w w"
  by (simp add: tiles_only_def)

lemma tiles_only_trans: "tiles_only a b \<Longrightarrow> tiles_only b c \<Longrightarrow> tiles_only a c"
  unfolding tiles_only_def
proof (elim conjE exE, intro conjI)
  fix rows rows'
  assume "tiles b = tiles a @ rows" "journal b = journal a @ map tile_statement rows"
    "tiles c = tiles b @ rows'" "journal c = journal b @ map tile_statement rows'"
  then have "tiles c = tiles a @ (rows @ rows') \<and> journal c = journal a @ map tile_statement (rows @ rows')"
    by simp
  then show "\<exists>rows. tiles c = tiles a @ rows \<and> journal c = journal a @ map tile_statement rows"
    by blast
qed simp_all

lemma tiles_only_files: "tiles_only w (w\<lparr>files := fs\<rparr>)"
  by (simp add: tiles_only_def)

lemma insert_tile_tiles_only: "insert_tile z x y d w = Inr w' \<Longrightarrow> tiles_only w w'"
proof -
  assume a: "insert_tile z x y d w = Inr w'"
  then have w': "w' = w\<lparr>tiles := tiles w @ [(z, x, y, d)], journal := journal w @ [InsertTile z x y]\<rparr>"
    by (simp add: insert_tile_def split: if_splits)
  have "tiles w' = tiles w @ [(z, x, y, d)] \<and> journal w' = journal w @ map tile_statement [(z, x, y, d)]"
    by (simp add: w' tile_statement_def)
  then show ?thesis unfolding tiles_only_def by (intro conjI exI[of _ "[(z, x, y, d)]"]) (simp_all add: w')
qed

lemma write_tile_tiles_only: "tiles_only w (fst (write_tile self tz tx ty d (w\<lparr>files := fs\<rparr>)))"
proof (cases "insert_tile tz tx ty (Image_save (tiledriver self) d) (w\<lparr>files := fs\<rparr>)")
  case (Inl e)
  then show ?thesis by (simp add: write_tile_def tiles_only_files)
next
  case (Inr w')
  from tiles_only_trans[OF tiles_only_files[of w fs] insert_tile_tiles_only[OF Inr]]
  show ?thesis by (simp add: write_tile_def Inr tiles_only_files)
qed

lemma save_tile_file_files:
  "save_tile_file name im w = Inr w' \<Longrightarrow> w' = w\<lparr>files := (files w)(name \<mapsto> im)\<rparr>"
  by (cases name) (simp add: save_tile_file_def split: if_splits)

lemma scale_query_to_tile_files:
  assumes "scale_query_to_tile self q d name w = Inr (d', w')"
  shows "\<exists>fs. w' = w\<lparr>files := fs\<rparr>"
proof (cases "resampling self = ''antialias''")
  case False
  with assms have "w' = w" by (simp add: scale_query_to_tile_def split: if_splits)
  then have "w' = w\<lparr>files := files w\<rparr>" by simp
  then show ?thesis by blast
next
  case True
  with assms obtain im where "save_tile_file name im w = Inr w'"
    by (auto simp: scale_query_to_tile_def Let_def split: sum.splits)
  from save_tile_file_files[OF this] show ?thesis by blast
qed

lemma base_dstile_files:
  assumes "base_dstile self rb wb q name w = Inr (d', w')"
  shows "\<exists>fs. w' = w\<lparr>files := fs\<rparr>"
proof (cases "tilesize = q")
  case True
  with assms have "w' = w" by (auto simp: base_dstile_def Let_def split: prod.splits)
  then have "w' = w\<lparr>files := files w\<rparr>" by simp
  then show ?thesis by blast
next
  case False
  with assms obtain q' d0 where "scale_query_to_tile self q' d0 name w = Inr (d', w')"
    by (auto simp: base_dstile_def Let_def split: prod.splits)
  then show ?thesis by (rule scale_query_to_tile_files)
qed

lemma scaled_tile_tiles_only:
  assumes "\<And>d' w'. scaled = Inr (d', w') \<Longrightarrow> \<exists>fs. w' = w\<lparr>files := fs\<rparr>"
  shows "tiles_only w (fst (case scaled of Inl e \<Rightarrow> (w, Some e)
                             | Inr (dstile, w') \<Rightarrow> write_tile self tz tx ty dstile w'))"
proof (cases scaled)
  case (Inl e)
  then show ?thesis by (simp add: tiles_only_refl)
next
  case (Inr r)
  obtain d' w' where r: "r = (d', w')" by (cases r)
  from assms[OF Inr[unfolded r]] obtain fs where "w' = w\<lparr>files := fs\<rparr>" ..
  then show ?thesis by (simp add: Inr r write_tile_tiles_only)
qed

lemma base_tile_tiles_only: "tiles_only w (fst (base_tile self tz mx my tx ty w))"
  by (simp add: base_tile_def tiles_only_refl scaled_tile_tiles_only base_dstile_files
      split: sum.split option.split prod.split)

lemma overview_tile_tiles_only: "tiles_only w (fst (overview_tile self tz tx ty w))"
  by (simp add: overview_tile_def Let_def tiles_only_refl scaled_tile_tiles_only
      scale_query_to_tile_files split: sum.split option.split prod.split)

lemma tile_loop_rel:
  assumes body: "\<And>tx ty w. R w (fst (body tx ty w))"
    and refl: "\<And>w. R w w" and trans: "\<And>a b c. R a b \<Longrightarrow> R b c \<Longrightarrow> R a c"
  shows "R w (fst (tile_loop body procs cpu ti ts w))"
proof (induction ts arbitrary: ti w)
  case Nil
  show ?case by (simp add: refl)
next
  case (Cons t rest)
  obtain tx ty where t: "t = (tx, ty)" by (cases t)
  obtain w' r where b: "body tx ty w = (w', r)" by (cases "body tx ty w")
  from body[where w = w and tx = tx and ty = ty] b have step: "R w w'" by simp
  show ?case
  proof (cases "procs = 0 \<or> (ti + 1 - 1) mod procs \<noteq> cpu")
    case True
    then show ?thesis using Cons.IH[where ti = "ti + 1" and w = w] by (auto simp: t Let_def refl)
  next
    case False
    show ?thesis
    proof (cases r)
      case None
      with False b show ?thesis
        using trans[OF step Cons.IH[where ti = "ti + 1" and w = w']] by (simp add: t Let_def)
    next
      case (Some e)
      with False b step show ?thesis by (simp add: t Let_def)
    qed
  qed
qed

lemma tile_loop_tiles_only:
  assumes "\<And>tx ty w. tiles_only w (fst (body tx ty w))"
  shows "tiles_only w (fst (tile_loop body procs cpu ti ts w))"
  by (rule tile_loop_rel[where R = tiles_only, OF assms tiles_only_refl tiles_only_trans])

lemma generate_base_tiles_tiles_only: "tiles_only w (fst (generate_base_tiles self cpu w))"
  by (simp add: generate_base_tiles_def tiles_only_refl tile_loop_tiles_only base_tile_tiles_only
      split: option.split prod.split)

lemma generate_overview_tiles_tiles_only: "tiles_only w (fst (generate_overview_tiles self cpu tz w))"
  by (simp add: generate_overview_tiles_def tiles_only_refl tile_loop_tiles_only
      overview_tile_tiles_only split: option.split prod.split)

lemma foldl_rel:
  assumes step: "\<And>w x. R w (f w x)"
    and refl: "\<And>w. R w w" and trans: "\<And>a b c. R a b \<Longrightarrow> R b c \<Longrightarrow> R a c"
  shows "R w (foldl f w xs)"
proof (induction xs arbitrary: w)
  case Nil
  show ?case by (simp add: refl)
next
  case (Cons x xs)
  from trans[OF step[where w = w and x = x] Cons.IH[where w = "f w x"]] show ?case by simp
qed

lemma base_phase_tiles_only: "tiles_only w (base_phase self w)"
  unfolding base_phase_def worker_base_tiles_def
  by (rule foldl_rel[where R = tiles_only, OF generate_base_tiles_tiles_only tiles_only_refl tiles_only_trans])

lemma overview_phase_tiles_only: "tiles_only w (overview_phase self tz w)"
  unfolding overview_phase_def worker_overview_tiles_def
  by (rule foldl_rel[where R = tiles_only, OF generate_overview_tiles_tiles_only tiles_only_refl tiles_only_trans])

lemma overview_phases_tiles_only:
  "tiles_only w (foldl (\<lambda>w tz. overview_phase self tz w) w zs)"
  by (rule foldl_rel[where R = tiles_only, OF overview_phase_tiles_only tiles_only_refl tiles_only_trans])

subsection \<open>Evaluation of the example run\<close>

lemma example_fields:
  "profile example_run = ''geodetic''"
  "resampling example_run = ''near''"
  "resume example_run = False"
  "processes example_run = 1"
  "output_cache example_run = ''xyz''"
  "output_path example_run = ''out.mbtiles''"
  "tileext example_run = ''png''"
  "tiledriver example_run = ''PNG''"
  "querysize example_run = 256"
  "tminz example_run = Some (Suc 0)"
  "tmaxz example_run = Some 2"
  "out_ds example_run = quarter_raster"
  "dataBandsCount example_run = 3"
  "kml example_run = False"
  by (simp_all add: example_run_def)

lemma example_tminmax:
  "length (tminmax example_run) = 32"
  "tminmax example_run ! 2 = (0, 0, 1, 1)"
  "tminmax example_run ! Suc 0 = (0, 0, 0, 0)"
  "tminmax example_run ! Suc (Suc 0) = (0, 0, 1, 1)"
  by (simp_all add: example_run_def)

lemma example_open_input: "open_input (example_run\<lparr>resume := r\<rparr>) = example_run\<lparr>resume := r\<rparr>"
  by (simp add: open_input_def example_run_def quarter_raster_def)

lemma example_windows:
  "base_windows (example_run\<lparr>resume := r\<rparr>) 2 0 1 1 1 = Inr ((0, 0, 128, 128), (0, 0, 256, 256), 256)"
  "base_windows (example_run\<lparr>resume := r\<rparr>) 2 1 1 1 1 = Inr ((128, 0, 128, 128), (0, 0, 256, 256), 256)"
  "base_windows (example_run\<lparr>resume := r\<rparr>) 2 0 0 1 1 = Inr ((0, 128, 128, 128), (0, 0, 256, 256), 256)"
  "base_windows (example_run\<lparr>resume := r\<rparr>) 2 1 0 1 1 = Inr ((128, 128, 128, 128), (0, 0, 256, 256), 256)"
  by (simp_all add: base_windows_def example_fields Geodetic_TileBounds_def tileSize_def
      geo_query_def quarter_raster_def clamp_window_def clamp_low_def clamp_high_def py_int_def Let_def)

lemma example_order:
  "tile_order (0, 0, 1, 1) = [(0, 1), (1, 1), (0, 0), (1, 0)]"
  "tile_order (0, 0, 0, 0) = [(0, 0)]"
  by (simp_all add: tile_order_def upto.simps)

lemma example_zooms: "[Suc 0..<2] = [Suc 0]"
  by (simp add: numeral_2_eq_2)

lemma base_tile_written:
  assumes "base_windows self tz tx ty mx my = Inr ((rx, ry, rxs, rys), (wx, wy, wxs, wys), q)"
    and "tilesize = q" and "files w = Map.empty" and "\<not> resume self"
    and "resampling self \<noteq> ''antialias''" and "created w" and "indexes w = []"
  shows "base_tile self tz mx my tx ty w =
           (w\<lparr>tiles := tiles w @ [(tz, tx, ty, Image_save (tiledriver self)
                  (MEM_Create tilesize (dataBandsCount self + 1) [(wx, wy, ReadRaster (rx, ry, rxs, rys) (wxs, wys))]))],
               journal := journal w @ [InsertTile tz tx ty]\<rparr>, None)"
  using assms by (simp add: base_tile_def base_dstile_def write_tile_def insert_tile_def Let_def)


lemma example_base:
  assumes "files w = Map.empty" and "created w" and "indexes w = []"
  shows "generate_base_tiles example_run 0 w =
           (w\<lparr>tiles := tiles w @ example_tiles,
               journal := journal w @ [InsertTile 2 0 1, InsertTile 2 1 1, InsertTile 2 0 0, InsertTile 2 1 0]\<rparr>, None)"
  using assms example_fields example_tminmax
    base_tile_written[where self = "example_run\<lparr>resume := False\<rparr>", OF example_windows(1)]
    base_tile_written[where self = "example_run\<lparr>resume := False\<rparr>", OF example_windows(2)]
    base_tile_written[where self = "example_run\<lparr>resume := False\<rparr>", OF example_windows(3)]
    base_tile_written[where self = "example_run\<lparr>resume := False\<rparr>", OF example_windows(4)]
  by (simp add: generate_base_tiles_def example_order example_tiles_def base_blob_def tilesize_def
      example_run_def)

lemma example_children:
  assumes "created w" and "tiles w = example_tiles @ later"
  shows "paint_children (example_run\<lparr>resume := r\<rparr>) (Suc 0) 0 0 w (children 0 0) [] =
     Inr [(0, 256, Image_open (base_blob (0, 128, 128, 128))),
      (256, 256, Image_open (base_blob (128, 128, 128, 128))),
      (0, 0, Image_open (base_blob (0, 0, 128, 128))),
      (256, 0, Image_open (base_blob (128, 0, 128, 128)))]"
  using assms
  by (simp add: children_def upto.simps example_tminmax select_tile_data_def example_tiles_def
      tile_key_def tileposx_def tileposy_def tilesize_def)

lemma example_overview:
  assumes "files w = Map.empty" and "created w" and "indexes w = []" and "tiles w = example_tiles @ later"
  shows "generate_overview_tiles (example_run\<lparr>resume := r\<rparr>) 0 (Suc 0) w =
           (w\<lparr>tiles := tiles w @ [(Suc 0, 0, 0, overview_blob)],
               journal := journal w @ [InsertTile (Suc 0) 0 0]\<rparr>, None)"
  using assms
  by (simp add: generate_overview_tiles_def example_fields example_tminmax example_order
      example_zooms overview_tile_def example_children scale_query_to_tile_def write_tile_def
      insert_tile_def Let_def overview_blob_def tilesize_def)

lemma example_main: "main str example_run (new_archive Map.empty {}) = (example_result, None)"
proof -
  define w1 where "w1 = \<lparr>created = True, tiles = [], metadata = [], indexes = [],
      journal = [CreateTables], files = Map.empty, directories = {},
      output_dir = {''tilemapresource.xml''}\<rparr>"
  define w2 where "w2 = w1\<lparr>tiles := example_tiles,
      journal := [CreateTables, InsertTile 2 0 1, InsertTile 2 1 1, InsertTile 2 0 0, InsertTile 2 1 0]\<rparr>"
  define w3 where "w3 = w2\<lparr>tiles := example_tiles @ [(1, 0, 0, overview_blob)],
      journal := journal w2 @ [InsertTile 1 0 0]\<rparr>"
  have run: "example_run\<lparr>resume := False\<rparr> = example_run" by (simp add: example_run_def)
  note fields = example_fields
  note opened = example_open_input[of False, unfolded run]
  have s1: "fst (worker_metadata str example_run (new_archive Map.empty {})) = w1"
    by (simp add: worker_metadata_def opened fields mbtiles_setup_def
        new_archive_def generate_metadata_def write_metadatajson_def write_tilemapresource_def
        generate_tilemapresource_def write_root_kml_def w1_def)
  have "generate_base_tiles example_run 0 w1 = (w2, None)"
    by (subst example_base) (simp_all add: w1_def w2_def)
  then have s2: "base_phase example_run w1 = w2"
    by (simp add: base_phase_def worker_base_tiles_def opened fields upto.simps)
  have "generate_overview_tiles example_run 0 (Suc 0) w2 = (w3, None)"
    by (subst example_overview[of _ "[]" False, unfolded run]) (simp_all add: w1_def w2_def w3_def)
  then have s3: "overview_phase example_run (Suc 0) w2 = w3"
    by (simp add: overview_phase_def worker_overview_tiles_def opened fields upto.simps)
  have s4: "create_index w3 = (example_result, None)"
    by (simp add: create_index_def create_unique_index_def example_result_def w3_def w2_def w1_def
        example_tiles_def tile_key_def)
  show ?thesis
    by (simp add: main_def s1 s2 fields example_zooms s3 s4)
qed



lemma example_missing_child:
  "generate_overview_tiles example_run 0 1 missing_child_archive = (missing_child_archive, Some TypeError)"
proof -
  note fields = example_fields
  note ranges = example_tminmax
  have "paint_children example_run (Suc 0) 0 0 missing_child_archive (children 0 0) [] = Inl TypeError"
    by (simp add: children_def upto.simps ranges select_tile_data_def example_tiles_def
        missing_child_archive_def tile_key_def)
  then show ?thesis
    by (simp add: generate_overview_tiles_def fields ranges example_order example_zooms
        overview_tile_def missing_child_archive_def)
qed

subsection \<open>The tile row that is stored\<close>

text \<open>
  C1 (the code at a failing input). The example run has the output convention \<open>xyz\<close>.
  Its base phase writes the four tiles of zoom 2 with the TMS rows 1, 1, 0, 0 and its
  overview phase the tile of zoom 1 with the TMS row 0; the rows stored in the tiles
  table are these TMS rows, where the claim has \<open>(2^z - 1) - ty\<close>: 2, 2, 3, 3 and 1.
\<close>

theorem xyz_rows_stored_as_tms:
  "output_cache example_run = ''xyz''
   \<and> tiles (fst (main (\<lambda>x. []) example_run (new_archive Map.empty {})))
       = example_tiles @ [(1, 0, 0, overview_blob)]
   \<and> map tile_key (tiles (fst (main (\<lambda>x. []) example_run (new_archive Map.empty {}))))
       = [(2, 0, 1), (2, 1, 1), (2, 0, 0), (2, 1, 0), (1, 0, 0)]
   \<and> map (\<lambda>(z, x, ty). (z, x, (2 ^ z - 1) - ty)) [(2::nat, 0::int, 1::int), (2, 1, 1), (2, 0, 0), (2, 1, 0), (1, 0, 0)]
       = [(2, 0, 2), (2, 1, 2), (2, 0, 3), (2, 1, 3), (1, 0, 1)]"
  by (simp add: example_main example_result_def example_tiles_def tile_key_def example_fields)

subsection \<open>A missing child tile\<close>

text \<open>
  C8 (the code at a failing input). In \<open>missing_child_archive\<close> the child \<open>(1, 0)\<close> of
  zoom 2 lies inside the tile range of zoom 2 and has no row. Building the overview tile
  \<open>(0, 0)\<close> of zoom 1 raises \<^verbatim>\<open>TypeError\<close>, and the archive is left as it was: the parent
  tile is not produced.
\<close>

theorem missing_child_raises:
  "tminmax example_run ! 2 = (0, 0, 1, 1)
   \<and> select_tile_data missing_child_archive 2 1 0 = Inr None
   \<and> generate_overview_tiles example_run 0 1 missing_child_archive
       = (missing_child_archive, Some TypeError)"
proof -
  have "select_tile_data missing_child_archive 2 1 0 = Inr None"
    by (simp add: select_tile_data_def missing_child_archive_def example_tiles_def tile_key_def)
  with example_missing_child example_tminmax(2) show ?thesis by simp
qed

subsection \<open>Antialias resampling\<close>












subsection \<open>Metadata rows\<close>

lemma open_input_options:
  "profile (open_input self) = profile self"
  "webviewer (open_input self) = webviewer self"
  "resume (open_input self) = resume self"
  "kml (open_input self) = kml self"
  "tminmax (open_input self) = tminmax self"
  by (simp_all add: open_input_def Let_def split: prod.split)

lemma insert_metadata_rows_new:
  "created w \<Longrightarrow> indexes w = [] \<Longrightarrow>
   insert_metadata_rows rows w =
     (w\<lparr>metadata := metadata w @ rows, journal := journal w @ map (\<lambda>r. InsertMetadata (fst r)) rows\<rparr>, None)"
proof (induction rows arbitrary: w)
  case Nil
  then show ?case by simp
next
  case (Cons r rows)
  obtain n v where r: "r = (n, v)" by (cases r)
  define w' where "w' = w\<lparr>metadata := metadata w @ [(n, v)], journal := journal w @ [InsertMetadata n]\<rparr>"
  have i: "insert_metadata n v w = Inr w'"
    using Cons.prems by (simp add: insert_metadata_def w'_def)
  have "created w'" "indexes w' = []" using Cons.prems by (simp_all add: w'_def)
  from Cons.IH[OF this] show ?case by (simp add: r i w'_def)
qed


lemma write_tilemapresource_ok:
  assumes "tminz self = Some zmin" and "tmaxz self = Some zmax"
  shows "\<exists>dir'. write_tilemapresource self w = (w\<lparr>output_dir := dir'\<rparr>, None)"
proof (cases "resume self \<and> ''tilemapresource.xml'' \<in> output_dir w")
  case True
  then have "write_tilemapresource self w = (w\<lparr>output_dir := output_dir w\<rparr>, None)"
    by (simp add: write_tilemapresource_def)
  then show ?thesis by blast
next
  case False
  then have "write_tilemapresource self w =
      (w\<lparr>output_dir := insert ''tilemapresource.xml'' (output_dir w)\<rparr>, None)"
    using assms by (simp add: write_tilemapresource_def generate_tilemapresource_def Let_def)
  then show ?thesis by blast
qed


lemma write_root_kml_ok:
  assumes "tminz self = Some zmin" and "kml self \<longrightarrow> zmin < length (tminmax self)"
  shows "\<exists>dir'. write_root_kml self w = (w\<lparr>output_dir := dir'\<rparr>, None)"
proof (cases "kml self")
  case False
  then have "write_root_kml self w = (w\<lparr>output_dir := output_dir w\<rparr>, None)"
    by (simp add: write_root_kml_def)
  then show ?thesis by blast
next
  case True
  with assms obtain c where "root_kml_children self = Inr c"
    by (cases "tminmax self ! zmin") (auto simp: root_kml_children_def)
  with True have "write_root_kml self w =
      (w\<lparr>output_dir := (if \<not> (resume self \<and> ''doc.kml'' \<in> output_dir w)
                          then insert ''doc.kml'' (output_dir w) else output_dir w)\<rparr>, None)"
    by (simp add: write_root_kml_def)
  then show ?thesis by blast
qed

lemma write_metadatajson_mercator:
  assumes "profile self = ''mercator''" and "webviewer self = ''all'' \<or> webviewer self = ''metadata''"
    and "\<not> resume self" and "created w" and "indexes w = []"
  shows "write_metadatajson str self w =
           (w\<lparr>output_dir := insert ''metadata.json'' (output_dir w),
               metadata := metadata w @ generate_metadatajson str self,
               journal := journal w @ map (\<lambda>r. InsertMetadata (fst r)) (generate_metadatajson str self)\<rparr>,
            None)"
proof -
  have "insert_metadata_rows (generate_metadatajson str self)
          (w\<lparr>output_dir := insert ''metadata.json'' (output_dir w)\<rparr>) =
        (w\<lparr>output_dir := insert ''metadata.json'' (output_dir w),
            metadata := metadata w @ generate_metadatajson str self,
            journal := journal w @ map (\<lambda>r. InsertMetadata (fst r)) (generate_metadatajson str self)\<rparr>,
         None)"
    using assms(4,5) by (subst insert_metadata_rows_new) simp_all
  with assms(1,2,3) show ?thesis
    by (auto simp: write_metadatajson_def Let_def)
qed

lemma worker_metadata_mercator:
  assumes "profile self = ''mercator''" and "webviewer self = ''all'' \<or> webviewer self = ''metadata''"
    and "\<not> resume self"
    and "tminz (open_input self) = Some zmin" and "tmaxz (open_input self) = Some zmax"
    and "kml self \<longrightarrow> zmin < length (tminmax self)"
  shows "\<exists>dir'. worker_metadata str self (new_archive fs dir) =
           (\<lparr>created = True, tiles = [], metadata = generate_metadatajson str (open_input self),
             indexes = [],
             journal = CreateTables # map (\<lambda>r. InsertMetadata (fst r)) (generate_metadatajson str (open_input self)),
             files = fs, directories = {}, output_dir = dir'\<rparr>, None)"
proof -
  define s where "s = open_input self"
  define w0 where "w0 = \<lparr>created = True, tiles = [], metadata = [], indexes = [],
      journal = [CreateTables], files = fs, directories = {}, output_dir = dir\<rparr>"
  define w1 where "w1 = w0\<lparr>output_dir := insert ''metadata.json'' dir,
      metadata := generate_metadatajson str s,
      journal := CreateTables # map (\<lambda>r. InsertMetadata (fst r)) (generate_metadatajson str s)\<rparr>"
  have opts: "profile s = ''mercator''" "webviewer s = ''all'' \<or> webviewer s = ''metadata''"
    "\<not> resume s" "kml s \<longrightarrow> zmin < length (tminmax s)"
    using assms by (simp_all add: s_def open_input_options)
  have tables: "mbtiles_setup (new_archive fs dir) = Inr w0"
    by (simp add: mbtiles_setup_def new_archive_def w0_def)
  have j: "write_metadatajson str s w0 = (w1, None)"
    by (subst write_metadatajson_mercator[OF opts(1,2,3)]) (simp_all add: w0_def w1_def)
  from write_tilemapresource_ok[OF assms(4,5)[folded s_def], of w1]
  obtain dir1 where t: "write_tilemapresource s w1 = (w1\<lparr>output_dir := dir1\<rparr>, None)" ..
  from write_root_kml_ok[OF assms(4)[folded s_def] opts(4), of "w1\<lparr>output_dir := dir1\<rparr>"]
  obtain dir2 where k: "write_root_kml s (w1\<lparr>output_dir := dir1\<rparr>) = (w1\<lparr>output_dir := dir2\<rparr>, None)"
    by auto
  have "generate_metadata str s w0 = (w1\<lparr>output_dir := dir2\<rparr>, None)"
    by (simp add: generate_metadata_def j t k)
  then have "worker_metadata str self (new_archive fs dir) = (w1\<lparr>output_dir := dir2\<rparr>, None)"
    using opts(3) by (simp add: worker_metadata_def s_def[symmetric] tables)
  then show ?thesis
    by (intro exI[of _ dir2]) (simp add: w1_def w0_def s_def)
qed

lemma metadatajson_keys: "map fst (generate_metadatajson str self) = metadata_keys"
  by (simp add: generate_metadatajson_def metadata_keys_def split: prod.split)

lemma extends_trans: "extends a b \<Longrightarrow> extends b c \<Longrightarrow> extends a c"
  by (auto simp: extends_def)

lemma tiles_only_extends: "tiles_only w w' \<Longrightarrow> extends w w'"
  by (auto simp: tiles_only_def extends_def)

lemma create_index_extends: "extends w (fst (create_index w))"
  by (auto simp: create_index_def create_unique_index_def extends_def)

lemma main_extends: "extends (fst (worker_metadata str self w)) (fst (main str self w))"
proof -
  define w1 where "w1 = fst (worker_metadata str self w)"
  define w2 where "w2 = base_phase self w1"
  have e2: "extends w1 w2" unfolding w2_def by (rule tiles_only_extends[OF base_phase_tiles_only])
  show ?thesis
  proof (cases "\<exists>zmax zmin. tmaxz self = Some zmax \<and> tminz self = Some zmin")
    case False
    then have "fst (main str self w) = w2"
      by (auto simp: main_def Let_def w1_def w2_def split: option.split)
    with e2 show ?thesis by (simp add: w1_def)
  next
    case True
    then obtain zmax zmin where z: "tmaxz self = Some zmax" "tminz self = Some zmin" by blast
    define w3 where "w3 = foldl (\<lambda>w tz. overview_phase self tz w) w2 (rev [zmin..<zmax])"
    have e3: "extends w2 w3"
      unfolding w3_def by (rule tiles_only_extends[OF overview_phases_tiles_only])
    have "fst (main str self w) = (if \<not> resume self then fst (create_index w3) else w3)"
      by (simp add: main_def Let_def z w1_def w2_def w3_def)
    moreover have "extends w1 (if \<not> resume self then fst (create_index w3) else w3)"
      using extends_trans[OF e2 e3] extends_trans[OF extends_trans[OF e2 e3] create_index_extends]
      by simp
    ultimately show ?thesis by (simp add: w1_def)
  qed
qed

text \<open>
  C6 (as amended). For a run with the mercator profile, the web viewer option \<open>all\<close> or
  \<open>metadata\<close> and no \<^verbatim>\<open>--resume\<close>, on a new archive, in which \<open>open_input\<close> leaves both zoom
  levels determined and, if the root KML is requested, the minimum zoom has an entry in
  \<open>tminmax\<close>: the statements of the run start with the creation of the tables followed by
  one metadata \<^verbatim>\<open>INSERT\<close> for each of the keys name, description, version, attribution,
  type, format, minzoom, maxzoom, bounds, scale and profile, so that every tile row is
  written after them; and at the end of the run the metadata table holds these eleven
  rows, with type \<open>overlay\<close>, bounds \<open>s w n e\<close>, scale \<open>1\<close> and profile \<open>mercator\<close>.
\<close>

theorem mercator_metadata_first:
  assumes "profile self = ''mercator''" and "webviewer self = ''all'' \<or> webviewer self = ''metadata''"
    and "\<not> resume self"
    and "tminz (open_input self) = Some zmin" and "tmaxz (open_input self) = Some zmax"
    and "kml self \<longrightarrow> zmin < length (tminmax self)"
  shows "metadata (fst (main str self (new_archive fs dir))) =
           [(''name'', PyStr (replace_quote (title self))),
            (''description'', PyStr (title self)),
            (''version'', PyStr ''1.0.0''),
            (''attribution'', PyStr (replace_quote (copyright self))),
            (''type'', PyStr ''overlay''),
            (''format'', PyStr (tileext self)),
            (''minzoom'', PyInt (int zmin)),
            (''maxzoom'', PyInt (int zmax)),
            (''bounds'', PyStr (case mercator_swne self of (south, west, north, east) \<Rightarrow>
                 str south @ '' '' @ str west @ '' '' @ str north @ '' '' @ str east)),
            (''scale'', PyStr ''1''),
            (''profile'', PyStr ''mercator'')]
       \<and> (\<exists>rest. journal (fst (main str self (new_archive fs dir))) =
             CreateTables # map InsertMetadata metadata_keys @ rest)"
proof -
  have fields: "title (open_input self) = title self" "copyright (open_input self) = copyright self"
    "tileext (open_input self) = tileext self" "out_ds (open_input self) = out_ds self"
    by (simp_all add: open_input_def Let_def split: prod.split)
  have swne: "mercator_swne (open_input self) = mercator_swne self"
    by (simp add: mercator_swne_def fields)
  from worker_metadata_mercator[OF assms, of str fs dir]
  obtain dir' where wm: "worker_metadata str self (new_archive fs dir) =
           (\<lparr>created = True, tiles = [], metadata = generate_metadatajson str (open_input self),
             indexes = [],
             journal = CreateTables # map (\<lambda>r. InsertMetadata (fst r)) (generate_metadatajson str (open_input self)),
             files = fs, directories = {}, output_dir = dir'\<rparr>, None)" ..
  from main_extends[of str self "new_archive fs dir"]
  have "extends (fst (worker_metadata str self (new_archive fs dir))) (fst (main str self (new_archive fs dir)))" .
  then obtain js where
    m: "metadata (fst (main str self (new_archive fs dir))) = generate_metadatajson str (open_input self)"
    and j: "journal (fst (main str self (new_archive fs dir))) =
        (CreateTables # map (\<lambda>r. InsertMetadata (fst r)) (generate_metadatajson str (open_input self))) @ js"
    unfolding wm extends_def by auto
  have keys: "map (\<lambda>r. InsertMetadata (fst r)) (generate_metadatajson str (open_input self))
      = map InsertMetadata metadata_keys"
  proof -
    have "map (\<lambda>r. InsertMetadata (fst r)) (generate_metadatajson str (open_input self))
        = map InsertMetadata (map fst (generate_metadatajson str (open_input self)))"
      by (simp add: comp_def)
    then show ?thesis by (simp only: metadatajson_keys)
  qed
  have rows: "generate_metadatajson str (open_input self) =
           [(''name'', PyStr (replace_quote (title self))),
            (''description'', PyStr (title self)),
            (''version'', PyStr ''1.0.0''),
            (''attribution'', PyStr (replace_quote (copyright self))),
            (''type'', PyStr ''overlay''),
            (''format'', PyStr (tileext self)),
            (''minzoom'', PyInt (int zmin)),
            (''maxzoom'', PyInt (int zmax)),
            (''bounds'', PyStr (case mercator_swne self of (south, west, north, east) \<Rightarrow>
                 str south @ '' '' @ str west @ '' '' @ str north @ '' '' @ str east)),
            (''scale'', PyStr ''1''),
            (''profile'', PyStr ''mercator'')]"
    by (simp add: generate_metadatajson_def swne fields assms(4,5) zoom_value_def split: prod.split)
  from j have "journal (fst (main str self (new_archive fs dir))) =
      CreateTables # map InsertMetadata metadata_keys @ js"
    by (simp only: keys append_Cons)
  then have "\<exists>rest. journal (fst (main str self (new_archive fs dir))) =
      CreateTables # map InsertMetadata metadata_keys @ rest" by blast
  with m[unfolded rows] show ?thesis by (rule conjI)
qed

theorem mercator_metadata_first_witness:
  "profile mercator_run = ''mercator'' \<and> webviewer mercator_run = ''all'' \<and> \<not> resume mercator_run
   \<and> tminz (open_input mercator_run) = Some 1 \<and> tmaxz (open_input mercator_run) = Some 2
   \<and> \<not> kml mercator_run
   \<and> map fst (metadata (fst (main (\<lambda>x. ''0'') mercator_run (new_archive Map.empty {})))) = metadata_keys
   \<and> map_of (metadata (fst (main (\<lambda>x. ''0'') mercator_run (new_archive Map.empty {})))) ''bounds''
       = Some (PyStr ''0 0 0 0'')
   \<and> map_of (metadata (fst (main (\<lambda>x. ''0'') mercator_run (new_archive Map.empty {})))) ''minzoom''
       = Some (PyInt 1)
   \<and> map_of (metadata (fst (main (\<lambda>x. ''0'') mercator_run (new_archive Map.empty {})))) ''type''
       = Some (PyStr ''overlay'')"
  using mercator_metadata_first [of mercator_run 1 2 "\<lambda>x. ''0''" Map.empty "{}"]
  by (simp add: mercator_run_def example_run_def metadata_keys_def open_input_def quarter_raster_def
      split: prod.split)

text \<open>
  C6 as stated fails for the geodetic profile: the example run, on a new archive and
  with the web viewer option \<open>all\<close>, writes its five tile rows and ends with an empty
  metadata table.
\<close>

theorem geodetic_metadata_counterexample:
  "profile example_run = ''geodetic''
   \<and> metadata (fst (main (\<lambda>x. []) example_run (new_archive Map.empty {}))) = []
   \<and> length (tiles (fst (main (\<lambda>x. []) example_run (new_archive Map.empty {})))) = 5"
  by (simp add: example_main example_result_def example_tiles_def example_fields)

subsection \<open>Index creation\<close>



lemma keys_in_files: "keys_in S (w\<lparr>files := fs\<rparr>) = keys_in S w"
  by (simp add: keys_in_def)























end
